theory Spec2Isabelle
  imports Complex_Main
begin

section \<open>Conventions\<close>

text \<open>
  The development embeds the risk engine of the security oracle: \<^verbatim>\<open>calculateRiskScore\<close>
  and \<^verbatim>\<open>fetchKamiyoExploits\<close> of \<^verbatim>\<open>src/index.ts\<close>, the discovery handler for
  \<^verbatim>\<open>/.well-known/x402\<close>, and the class \<^verbatim>\<open>RiskDetector\<close> of
  \<^verbatim>\<open>src/services/risk-detector.ts\<close>.

  \<^item> Time. \<^verbatim>\<open>Date.now()\<close> is a parameter \<open>now\<close>, in milliseconds since the epoch; one
    call of a function reads one value of the clock. A timestamp field holds what
    \<^verbatim>\<open>new Date(s).getTime()\<close> yields for the string \<open>s\<close> of the source: \<open>Some ms\<close>, or
    \<open>None\<close> for \<^verbatim>\<open>NaN\<close> (a string that is no date). Every comparison with \<^verbatim>\<open>NaN\<close>
    is false, which is what the \<open>None\<close> branches below return.
  \<^item> Numbers. A finite Number value is the rational it denotes, and the arithmetic of the
    scores and of the price is binary64 arithmetic: every sum, product and quotient of the
    source is rounded to the nearest double (section on Number values). JavaScript's
    \<^verbatim>\<open>Math.round\<close> is \<open>\<lfloor>x + 1/2\<rfloor>\<close>, which is \<^const>\<open>round\<close>. A numeric field that is
    \<^verbatim>\<open>NaN\<close>, \<^verbatim>\<open>null\<close> or \<^verbatim>\<open>undefined\<close> at run time is \<open>None\<close>; otherwise it holds
    a Number value, a rational that \<open>binary64\<close> leaves as it is. Clock values and
    timestamps are integers, on which subtraction is exact; an age in days is the exact
    quotient, whose comparisons with 7, 30 and 180 days are those of the rounded quotient
    (lemmas \<open>days_less_binary64\<close> and \<open>days_greater_binary64\<close>).
  \<^item> Collaborators. The data service is a function from the query to either an exception
    or a list of records. Calls of the logger write to the logging sink, return normally
    and do not change any result; they are left out.
\<close>

section \<open>Number values\<close>

text \<open>
  A finite Number value is the rational it denotes. \<open>binary64\<close> rounds a rational to the
  nearest value of the IEEE 754 double format, ties to the even significand: 53 significant
  bits from the binade \<open>2 ^ e \<le> \<bar>x\<bar> < 2 ^ (e + 1)\<close> on, the quantum \<open>2 ^ - 1074\<close> below
  \<open>2 ^ - 1022\<close>. A decimal literal denotes the rounding of its exact value, and the
  product, sum and quotient of two Number values are the roundings of the exact ones.
  Number values are finite here: a value beyond the largest double, about \<open>1.8e308\<close>,
  which is \<^verbatim>\<open>Infinity\<close> in the program, is not represented.
\<close>

definition pow2 :: "int \<Rightarrow> rat" where
  "pow2 k = (if k \<ge> 0 then 2 ^ nat k else 1 / 2 ^ nat (- k))"

function floor_log2 :: "rat \<Rightarrow> int" where
  "floor_log2 x =
     (if x \<le> 0 then 0
      else if x < 1 then floor_log2 (2 * x) - 1
      else if 2 \<le> x then floor_log2 (x / 2) + 1
      else 0)"
  by pat_completeness auto
termination
proof (relation "measure (\<lambda>x. if x < 1 then nat \<lceil>1 / x\<rceil> else nat \<lfloor>x\<rfloor>)")
  show "wf (measure (\<lambda>x::rat. if x < 1 then nat \<lceil>1 / x\<rceil> else nat \<lfloor>x\<rfloor>))"
    by simp
next
  fix x :: rat
  assume pos: "\<not> x \<le> 0" and small: "x < 1"
  show "(2 * x, x) \<in> measure (\<lambda>x. if x < 1 then nat \<lceil>1 / x\<rceil> else nat \<lfloor>x\<rfloor>)"
  proof (cases "2 * x < 1")
    case True
    have "1 / x > 2"
      using pos True by (simp add: field_simps)
    then have big: "\<lceil>1 / x\<rceil> \<ge> 3"
      by linarith
    have "1 / (2 * x) = (1 / x) / 2"
      by simp
    then have "\<lceil>1 / (2 * x)\<rceil> < \<lceil>1 / x\<rceil>"
      using big by linarith
    moreover have "\<lceil>1 / x\<rceil> > 0"
      using big by linarith
    ultimately show ?thesis
      using True small by simp
  next
    case False
    then have one: "\<lfloor>2 * x\<rfloor> = 1"
      using small by linarith
    have "1 / x > 1"
      using pos small by (simp add: field_simps)
    then have "\<lceil>1 / x\<rceil> \<ge> 2"
      by linarith
    then show ?thesis
      using False small one by simp
  qed
next
  fix x :: rat
  assume large: "2 \<le> x"
  have "\<lfloor>x / 2\<rfloor> < \<lfloor>x\<rfloor>"
    using large by linarith
  moreover have "\<lfloor>x\<rfloor> \<ge> 2"
    using large by linarith
  moreover have "\<not> x / 2 < 1" "\<not> x < 1"
    using large by simp_all
  ultimately show "(x / 2, x) \<in> measure (\<lambda>x. if x < 1 then nat \<lceil>1 / x\<rceil> else nat \<lfloor>x\<rfloor>)"
    by simp
qed

declare floor_log2.simps [simp del]

definition round_half_even :: "rat \<Rightarrow> int" where
  "round_half_even y =
     (let n = \<lfloor>y\<rfloor>; r = y - of_int n
      in if r < 1 / 2 then n else if 1 / 2 < r then n + 1 else if even n then n else n + 1)"

definition binary64 :: "rat \<Rightarrow> rat" where
  "binary64 x =
     (if x = 0 then 0
      else let e = max (floor_log2 \<bar>x\<bar>) (- 1022); q = pow2 (e - 52)
           in sgn x * of_int (round_half_even (\<bar>x\<bar> / q)) * q)"

definition number_times :: "rat \<Rightarrow> rat \<Rightarrow> rat" where
  "number_times a b = binary64 (a * b)"

definition number_plus :: "rat \<Rightarrow> rat \<Rightarrow> rat" where
  "number_plus a b = binary64 (a + b)"

definition number_div :: "rat \<Rightarrow> rat \<Rightarrow> rat" where
  "number_div a b = binary64 (a / b)"

section \<open>Exploit records and the protocol risk score\<close>

datatype Severity = critical | high | medium | low

record ExploitData =
  protocol :: string
  chain :: string
  severity :: Severity
  loss_usd :: "rat option"
  timestamp :: "int option"
  description :: string
  attack_vector :: string

datatype RiskLevel = CRITICAL | HIGH | MEDIUM | LOW

record Factors =
  exploit_frequency :: int
  total_loss :: int
  recency :: int
  severity_distribution :: "Severity \<rightharpoonup> nat"

record RiskScore =
  protocol :: string
  score :: int
  risk_level :: RiskLevel
  recent_exploits :: nat
  total_loss_usd :: int
  recommendation :: string
  factors :: Factors

text \<open>
  The locals of \<^verbatim>\<open>calculateRiskScore\<close>, in the order of the source. The operators
  \<^verbatim>\<open>+\<close>, \<^verbatim>\<open>*\<close> and \<^verbatim>\<open>/\<close> on Number values are \<open>number_plus\<close>, \<open>number_times\<close> and
  \<open>number_div\<close>; the literals \<^verbatim>\<open>0.4\<close> and \<^verbatim>\<open>0.3\<close> are \<open>binary64 0.4\<close> and
  \<open>binary64 0.3\<close>.
\<close>

definition thirtyDaysAgo :: "int \<Rightarrow> int" where
  "thirtyDaysAgo now = now - 30 * 24 * 60 * 60 * 1000"

definition recentExploits :: "int \<Rightarrow> ExploitData list \<Rightarrow> ExploitData list" where
  "recentExploits now exploits =
     filter (\<lambda>e. case timestamp e of None \<Rightarrow> False | Some t \<Rightarrow> t > thirtyDaysAgo now) exploits"

text \<open>\<^verbatim>\<open>e.loss_usd || 0\<close>: a missing loss, and a loss of zero, count as zero.\<close>

definition lossOrZero :: "ExploitData \<Rightarrow> rat" where
  "lossOrZero e = (case loss_usd e of None \<Rightarrow> 0 | Some v \<Rightarrow> if v = 0 then 0 else v)"

definition totalLoss :: "ExploitData list \<Rightarrow> rat" where
  "totalLoss exploits = foldl (\<lambda>sum e. number_plus sum (lossOrZero e)) 0 exploits"

definition recentLoss :: "int \<Rightarrow> ExploitData list \<Rightarrow> rat" where
  "recentLoss now exploits =
     foldl (\<lambda>sum e. number_plus sum (lossOrZero e)) 0 (recentExploits now exploits)"

text \<open>\<^verbatim>\<open>acc[e.severity] = (acc[e.severity] || 0) + 1\<close>, starting from the empty object.\<close>

definition severityDist :: "ExploitData list \<Rightarrow> (Severity \<rightharpoonup> nat)" where
  "severityDist exploits =
     foldl (\<lambda>acc e. acc(ExploitData.severity e \<mapsto>
                (case acc (ExploitData.severity e) of None \<Rightarrow> 0 | Some n \<Rightarrow> n) + 1))
       Map.empty exploits"

definition exploitFrequencyScore :: "int \<Rightarrow> ExploitData list \<Rightarrow> rat" where
  "exploitFrequencyScore now exploits =
     min (number_times (number_div (of_nat (length (recentExploits now exploits))) 10) 100) 100"

definition totalLossScore :: "ExploitData list \<Rightarrow> rat" where
  "totalLossScore exploits = min (number_times (number_div (totalLoss exploits) 10000000) 100) 100"

text \<open>
  \<^verbatim>\<open>exploits[0]\<close> is \<^verbatim>\<open>undefined\<close> on the empty array, and the age is then 999 days.
  The result is \<open>None\<close> when the first record's timestamp is no date.
\<close>

definition daysSinceLatest :: "int \<Rightarrow> ExploitData list \<Rightarrow> rat option" where
  "daysSinceLatest now exploits =
     (case exploits of
        [] \<Rightarrow> Some 999
      | latestExploit # _ \<Rightarrow>
          (case timestamp latestExploit of
             None \<Rightarrow> None
           | Some t \<Rightarrow> Some (of_int (now - t) / (24 * 60 * 60 * 1000))))"

definition recencyScore :: "int \<Rightarrow> ExploitData list \<Rightarrow> rat" where
  "recencyScore now exploits =
     (case daysSinceLatest now exploits of
        None \<Rightarrow> 0
      | Some d \<Rightarrow> if d < 7 then 100 else if d < 30 then 50 else 0)"

definition riskScore :: "int \<Rightarrow> ExploitData list \<Rightarrow> rat" where
  "riskScore now exploits =
     number_plus
       (number_plus (number_times (exploitFrequencyScore now exploits) (binary64 0.4))
          (number_times (totalLossScore exploits) (binary64 0.3)))
       (number_times (recencyScore now exploits) (binary64 0.3))"

text \<open>The chain of comparisons that sets \<^verbatim>\<open>riskLevel\<close> and \<^verbatim>\<open>recommendation\<close>.\<close>

definition riskLevel :: "rat \<Rightarrow> RiskLevel \<times> string" where
  "riskLevel r =
     (if r \<ge> 75 then (CRITICAL, ''AVOID - High exploit risk detected'')
      else if r \<ge> 50 then (HIGH, ''CAUTION - Significant security concerns'')
      else if r \<ge> 25 then (MEDIUM, ''MONITOR - Some historical issues'')
      else (LOW, ''ACCEPTABLE - Low risk profile''))"

definition calculateRiskScore :: "int \<Rightarrow> ExploitData list \<Rightarrow> string \<Rightarrow> RiskScore" where
  "calculateRiskScore now exploits protocol' =
     \<lparr> protocol = protocol',
       score = round (riskScore now exploits),
       risk_level = fst (riskLevel (riskScore now exploits)),
       recent_exploits = length (recentExploits now exploits),
       total_loss_usd = round (totalLoss exploits),
       recommendation = snd (riskLevel (riskScore now exploits)),
       factors =
         \<lparr> exploit_frequency = round (exploitFrequencyScore now exploits),
           total_loss = round (totalLossScore exploits),
           recency = round (recencyScore now exploits),
           severity_distribution = severityDist exploits \<rparr> \<rparr>"

subsection \<open>The scoring rules as the specification words them\<close>

text \<open>
  Two rules of the specification, written from its words, for comparison with the code.
  The recency rule looks at the single most recent record by timestamp: \<open>spec_latest\<close> is
  the greatest timestamp of the sequence, \<open>None\<close> when no record carries one.
\<close>

definition spec_latest :: "ExploitData list \<Rightarrow> int option" where
  "spec_latest exploits =
     (case List.map_filter timestamp exploits of
        [] \<Rightarrow> None
      | t # ts \<Rightarrow> Some (foldl max t ts))"

definition spec_recency_score :: "int \<Rightarrow> ExploitData list \<Rightarrow> int" where
  "spec_recency_score now exploits =
     (case spec_latest exploits of
        None \<Rightarrow> 0
      | Some t \<Rightarrow>
          let days = (of_int (now - t) :: rat) / (24 * 60 * 60 * 1000)
          in if days < 7 then 100 else if days < 30 then 50 else 0)"

text \<open>The level and recommendation thresholds applied to the integer score.\<close>

definition spec_level :: "int \<Rightarrow> RiskLevel \<times> string" where
  "spec_level s =
     (if s \<ge> 75 then (CRITICAL, ''AVOID - High exploit risk detected'')
      else if s \<ge> 50 then (HIGH, ''CAUTION - Significant security concerns'')
      else if s \<ge> 25 then (MEDIUM, ''MONITOR - Some historical issues'')
      else (LOW, ''ACCEPTABLE - Low risk profile''))"

section \<open>The exploit-fetch wrapper\<close>

text \<open>
  An exception thrown by a collaborator is a value \<open>Inl (Error msg)\<close>. The class
  \<^verbatim>\<open>DataService\<close> is a collaborator of the functions below; its method
  \<^verbatim>\<open>fetchExploits(protocol?, chain?)\<close> is taken as a parameter: a function from the two
  optional filters to the exception it throws or the records it returns.
\<close>

datatype error = Error string

type_synonym DataService = "string option \<Rightarrow> string option \<Rightarrow> error + ExploitData list"

text \<open>
  \<^verbatim>\<open>fetchKamiyoExploits\<close>: the \<^verbatim>\<open>try\<close> block returns what the data service returns, the
  \<^verbatim>\<open>catch\<close> block returns the empty array. The result is a sum so that "does not raise"
  is a statement about the value.
\<close>

definition fetchKamiyoExploits ::
  "DataService \<Rightarrow> string option \<Rightarrow> string option \<Rightarrow> error + ExploitData list" where
  "fetchKamiyoExploits dataService' protocol' chain' =
     (case dataService' protocol' chain' of
        Inr exploits \<Rightarrow> Inr exploits
      | Inl err \<Rightarrow> Inr [])"

section \<open>Risk flags of token approvals\<close>

text \<open>
  Modelled from the spec: the types \<^verbatim>\<open>TokenApproval\<close> and \<^verbatim>\<open>RiskFlag\<close> of
  \<^verbatim>\<open>src/types/approval.types.ts\<close>, which \<^verbatim>\<open>risk-detector.ts\<close> imports. The fields are
  those of the specification's data model, which are also the ones the code reads and
  writes.
\<close>

datatype RiskType = unlimited | stale | exploited_protocol | suspicious_spender

record RiskFlag =
  type :: RiskType
  severity :: Severity
  description :: string

record TokenApproval =
  token_address :: string
  token_symbol :: string
  spender_address :: string
  allowance :: string
  is_unlimited :: bool
  last_updated :: "int option"

text \<open>
  The class \<^verbatim>\<open>RiskDetector\<close>: its data service and its deny-list. The field
  \<^verbatim>\<open>staleThresholdDays\<close> is initialised to 180 and never assigned; it is a constant.
\<close>

record RiskDetector =
  dataService :: DataService
  knownScamAddresses :: "string set"

definition staleThresholdDays :: rat where
  "staleThresholdDays = 180"

definition RiskDetector_new :: "DataService \<Rightarrow> RiskDetector" where
  "RiskDetector_new ds = \<lparr> dataService = ds, knownScamAddresses = {} \<rparr>"

text \<open>
  \<^verbatim>\<open>toLowerCase\<close> on the characters an address is made of: the letters \<open>A\<close> to \<open>Z\<close>
  (codes 65 to 90) move to \<open>a\<close> to \<open>z\<close>, every other character stays.
\<close>

definition toLower :: "char \<Rightarrow> char" where
  "toLower c =
     (let n = (of_char c :: nat) in if 65 \<le> n \<and> n \<le> 90 then char_of (n + 32) else c)"

definition toLowerCase :: "string \<Rightarrow> string" where
  "toLowerCase s = map toLower s"

definition addScamAddress :: "RiskDetector \<Rightarrow> string \<Rightarrow> RiskDetector" where
  "addScamAddress rd address =
     rd\<lparr> knownScamAddresses := insert (toLowerCase address) (knownScamAddresses rd) \<rparr>"

definition getScamAddressCount :: "RiskDetector \<Rightarrow> nat" where
  "getScamAddressCount rd = card (knownScamAddresses rd)"

text \<open>Decimal digits of a number, as a template literal prints an integer.\<close>

function showNat :: "nat \<Rightarrow> string" where
  "showNat n =
     (if n < 10 then [''0123456789'' ! n]
      else showNat (n div 10) @ [''0123456789'' ! (n mod 10)])"
  by pat_completeness auto
termination
  by (relation "measure id") simp_all

declare showNat.simps [simp del]

definition showInt :: "int \<Rightarrow> string" where
  "showInt i = (if i < 0 then CHR ''-'' # showNat (nat (- i)) else showNat (nat i))"

definition getDaysSince :: "int \<Rightarrow> int option \<Rightarrow> rat option" where
  "getDaysSince now dateString =
     (case dateString of
        None \<Rightarrow> None
      | Some date \<Rightarrow> Some (of_int (now - date) / (1000 * 60 * 60 * 24)))"

definition protocolMap :: "string \<rightharpoonup> string" where
  "protocolMap = map_of
     [(''0x7a250d5630B4cF539739dF2C5dAcb4c659F2488D'', ''uniswap-v2''),
      (''0xE592427A0AEce92De3Edee1F18E0157C05861564'', ''uniswap-v3''),
      (''0x68b3465833fb72A70ecDF485E0e4C7bD8665Fc45'', ''uniswap''),
      (''0xd9e1cE17f2641f24aE83637ab66a2cca9C378B9F'', ''sushiswap''),
      (''0x1111111254fb6c44bAC0beD2854e76F90643097d'', ''1inch''),
      (''0xDef1C0ded9bec7F1a1670819833240f027b25EfF'', ''0x'')]"

text \<open>
  \<^verbatim>\<open>checkProtocolExploitHistory\<close>: \<open>None\<close> is \<^verbatim>\<open>null\<close>. An exception of the data service
  is caught and gives \<^verbatim>\<open>null\<close>. The table \<open>protocolMap\<close> holds the six properties the
  object literal declares; the names every object inherits (\<^verbatim>\<open>constructor\<close>,
  \<^verbatim>\<open>toString\<close> and the like) are no addresses and are not entries of the table.
\<close>

definition checkProtocolExploitHistory :: "RiskDetector \<Rightarrow> int \<Rightarrow> string \<Rightarrow> RiskFlag option" where
  "checkProtocolExploitHistory rd now spenderAddress =
     (case protocolMap spenderAddress of
        None \<Rightarrow> None
      | Some protocol' \<Rightarrow>
          (case dataService rd (Some protocol') None of
             Inl err \<Rightarrow> None
           | Inr exploits \<Rightarrow>
               if length exploits = 0 then None
               else
                 let ninetyDaysAgo = now - 90 * 24 * 60 * 60 * 1000;
                     recentExploits' =
                       filter (\<lambda>e. case timestamp e of None \<Rightarrow> False | Some t \<Rightarrow> t > ninetyDaysAgo)
                         exploits
                 in if length recentExploits' > 0 then
                      let criticalExploits =
                            filter (\<lambda>e. ExploitData.severity e = critical \<or> ExploitData.severity e = high)
                              recentExploits'
                      in if length criticalExploits > 0 then
                           Some \<lparr> type = exploited_protocol, severity = critical,
                                  description = ''Protocol '' @ protocol' @ '' has had ''
                                    @ showNat (length criticalExploits)
                                    @ '' critical/high severity exploit(s) in the last 90 days. Exercise extreme caution.'' \<rparr>
                         else
                           Some \<lparr> type = exploited_protocol, severity = high,
                                  description = ''Protocol '' @ protocol' @ '' has had ''
                                    @ showNat (length recentExploits')
                                    @ '' exploit(s) in the last 90 days. Review before interaction.'' \<rparr>
                    else if length exploits > 0 then
                      Some \<lparr> type = exploited_protocol, severity = medium,
                             description = ''Protocol '' @ protocol'
                               @ '' has historical exploit records. Total incidents: ''
                               @ showNat (length exploits) @ ''.'' \<rparr>
                    else None))"

text \<open>
  The body of the loop of \<^verbatim>\<open>detectRisks\<close>: the array \<^verbatim>\<open>risks\<close> of one approval, the four
  rules in the order of the source.
\<close>

definition approvalRisks :: "RiskDetector \<Rightarrow> int \<Rightarrow> TokenApproval \<Rightarrow> RiskFlag list" where
  "approvalRisks rd now approval =
     (if is_unlimited approval then
        [\<lparr> type = unlimited, severity = high,
           description = ''Unlimited approval granted to '' @ spender_address approval
             @ ''. This allows the spender to drain all tokens.'' \<rparr>]
      else [])
     @ (case getDaysSince now (last_updated approval) of
          None \<Rightarrow> []
        | Some daysSinceUpdate \<Rightarrow>
            if daysSinceUpdate > staleThresholdDays then
              [\<lparr> type = stale, severity = medium,
                 description = ''Approval is '' @ showInt (round daysSinceUpdate)
                   @ '' days old. Consider revoking unused approvals.'' \<rparr>]
            else [])
     @ (case checkProtocolExploitHistory rd now (spender_address approval) of
          Some exploitRisk \<Rightarrow> [exploitRisk]
        | None \<Rightarrow> [])
     @ (if toLowerCase (spender_address approval) \<in> knownScamAddresses rd then
          [\<lparr> type = suspicious_spender, severity = critical,
             description =
               ''Spender address is flagged as suspicious or malicious. Revoke immediately.'' \<rparr>]
        else [])"

definition riskKey :: "TokenApproval \<Rightarrow> string" where
  "riskKey approval = token_address approval @ ''-'' @ spender_address approval"

text \<open>
  \<^verbatim>\<open>detectRisks\<close>: the loop over the approvals, with \<^verbatim>\<open>riskMap\<close> as the accumulator; an
  assignment \<^verbatim>\<open>riskMap[key] = risks\<close> replaces what the key held.
\<close>

definition detectRisks ::
  "RiskDetector \<Rightarrow> int \<Rightarrow> TokenApproval list \<Rightarrow> (string \<rightharpoonup> RiskFlag list)" where
  "detectRisks rd now approvals =
     foldl (\<lambda>riskMap approval.
              let risks = approvalRisks rd now approval
              in if length risks > 0 then riskMap(riskKey approval \<mapsto> risks) else riskMap)
       Map.empty approvals"

section \<open>The discovery document\<close>

text \<open>
  \<^verbatim>\<open>String(x)\<close>: an integer of magnitude at most \<open>2 ^ 53 - 1\<close> prints as its decimal
  digits. The digits of any other Number value are not worked out here; they are the
  parameter \<open>render\<close>.
\<close>

definition NumberToString :: "(rat \<Rightarrow> string) \<Rightarrow> rat \<Rightarrow> string" where
  "NumberToString render x =
     (if x = of_int \<lfloor>x\<rfloor> \<and> \<bar>x\<bar> \<le> 9007199254740991 then showInt \<lfloor>x\<rfloor> else render x)"

subsection \<open>The handler of \<^verbatim>\<open>/.well-known/x402\<close>\<close>

text \<open>The literals \<^verbatim>\<open>0.001\<close> and \<^verbatim>\<open>1_000_000_000\<close> of the source.\<close>

definition PRICE_PER_REQUEST_SOL :: rat where
  "PRICE_PER_REQUEST_SOL = binary64 (1 / 1000)"

definition LAMPORTS_PER_SOL :: rat where
  "LAMPORTS_PER_SOL = binary64 1000000000"

text \<open>
  The request gives \<^verbatim>\<open>req.protocol\<close> and \<^verbatim>\<open>req.get('host')\<close>, which is
  \<^verbatim>\<open>undefined\<close> without a Host header. Of a resource descriptor the scalar fields are
  kept; \<^verbatim>\<open>outputSchema\<close> and \<^verbatim>\<open>extra\<close> are constant nested objects. The payment wallet
  comes from the environment and is a parameter.
\<close>

record Request =
  protocol :: string
  host :: "string option"

record ResourceDescriptor =
  scheme :: string
  network :: string
  maxAmountRequired :: string
  resource :: string
  description :: string
  mimeType :: string
  payTo :: string
  maxTimeoutSeconds :: nat
  asset :: string

record DiscoveryDocument =
  x402Version :: nat
  accepts :: "ResourceDescriptor list"

record Response =
  status :: nat
  body :: DiscoveryDocument

definition baseUrl :: "Request \<Rightarrow> string" where
  "baseUrl req =
     Request.protocol req @ ''://'' @ (case host req of None \<Rightarrow> ''undefined'' | Some h \<Rightarrow> h)"

definition wellKnownX402 :: "(rat \<Rightarrow> string) \<Rightarrow> string \<Rightarrow> Request \<Rightarrow> Response" where
  "wellKnownX402 render PAYMENT_WALLET req =
     \<lparr> status = 402,
       body =
         \<lparr> x402Version = 1,
           accepts =
             [\<lparr> scheme = ''exact'',
                network = ''solana'',
                maxAmountRequired =
                  NumberToString render (number_times PRICE_PER_REQUEST_SOL LAMPORTS_PER_SOL),
                resource = baseUrl req @ ''/approval-audit'',
                description =
                  ''Audit wallet token approvals and identify malicious or risky approvals'',
                mimeType = ''application/json'',
                payTo = PAYMENT_WALLET,
                maxTimeoutSeconds = 300,
                asset = ''SOL'' \<rparr>,
              \<lparr> scheme = ''exact'',
                network = ''solana'',
                maxAmountRequired =
                  NumberToString render (number_times PRICE_PER_REQUEST_SOL LAMPORTS_PER_SOL),
                resource = baseUrl req @ ''/exploits'',
                description = ''Real-time DeFi exploit intelligence from 20+ sources'',
                mimeType = ''application/json'',
                payTo = PAYMENT_WALLET,
                maxTimeoutSeconds = 300,
                asset = ''SOL'' \<rparr>,
              \<lparr> scheme = ''exact'',
                network = ''solana'',
                maxAmountRequired =
                  NumberToString render (number_times PRICE_PER_REQUEST_SOL LAMPORTS_PER_SOL),
                resource = baseUrl req @ ''/risk-score/{protocol}'',
                description =
                  ''Calculate risk score for DeFi protocols based on exploit history'',
                mimeType = ''application/json'',
                payTo = PAYMENT_WALLET,
                maxTimeoutSeconds = 300,
                asset = ''SOL'' \<rparr>] \<rparr> \<rparr>"

section \<open>Example inputs\<close>

text \<open>
  Concrete values the closed theorems below are stated at. \<open>day\<close> is a day in
  milliseconds; \<open>ex_now\<close> is a clock value 200 days after the epoch.
\<close>

definition day :: int where
  "day = 24 * 60 * 60 * 1000"

definition ex_now :: int where
  "ex_now = 200 * day"

definition ex_exploit :: "Severity \<Rightarrow> rat \<Rightarrow> int \<Rightarrow> ExploitData" where
  "ex_exploit sev loss t =
     \<lparr> ExploitData.protocol = ''uniswap-v2'', chain = ''ethereum'', severity = sev,
       loss_usd = Some loss, timestamp = Some t, description = ''reentrancy'',
       attack_vector = ''flash loan'' \<rparr>"

definition ex_rd :: RiskDetector where
  "ex_rd = RiskDetector_new (\<lambda>p c. Inr [])"

definition ex_A :: TokenApproval where
  "ex_A = \<lparr> token_address = ''0xT'', token_symbol = ''TKN'', spender_address = ''0xS'',
     allowance = ''1'', is_unlimited = True, last_updated = Some 0 \<rparr>"

definition ex_B :: TokenApproval where
  "ex_B = \<lparr> token_address = ''0xT'', token_symbol = ''TKN'', spender_address = ''0xS'',
     allowance = ''1'', is_unlimited = False, last_updated = Some 0 \<rparr>"

text \<open>
  A detector whose data service knows one critical exploit of \<open>uniswap-v2\<close>, ten days
  old; an approval to the Uniswap V2 router as the table spells it, and one to the same
  address in lower case.
\<close>

definition ex_rd2 :: RiskDetector where
  "ex_rd2 = RiskDetector_new
     (\<lambda>p c. if p = Some ''uniswap-v2'' then Inr [ex_exploit critical 1000 (ex_now - 10 * day)]
            else Inr [])"

definition ex_C :: TokenApproval where
  "ex_C = \<lparr> token_address = ''0xT'', token_symbol = ''TKN'',
     spender_address = ''0x7a250d5630B4cF539739dF2C5dAcb4c659F2488D'',
     allowance = ''1'', is_unlimited = False, last_updated = Some (ex_now - day) \<rparr>"

definition ex_D :: TokenApproval where
  "ex_D = \<lparr> token_address = ''0xT'', token_symbol = ''TKN'',
     spender_address = ''0x7a250d5630b4cf539739df2c5dacb4c659f2488d'',
     allowance = ''1'', is_unlimited = False, last_updated = Some (ex_now - day) \<rparr>"

section \<open>Evaluation lemmas\<close>

lemma floor_numeral_div: "\<lfloor>numeral a / numeral b :: rat\<rfloor> = numeral a div numeral b"
  using floor_divide_of_int_eq[of "numeral a" "numeral b", where ?'a = rat] by simp

lemmas score_defs = calculateRiskScore_def riskScore_def exploitFrequencyScore_def
  totalLossScore_def recencyScore_def daysSinceLatest_def totalLoss_def lossOrZero_def
  recentExploits_def thirtyDaysAgo_def riskLevel_def

lemma showInt_200: "showInt 200 = ''200''"
  by (simp add: showInt_def showNat.simps)

lemma protocolMap_0xS: "protocolMap ''0xS'' = None"
  by (simp add: protocolMap_def)

lemma showInt_1000000: "showInt 1000000 = ''1000000''"
  by (simp add: showInt_def showNat.simps)

section \<open>Rounding to binary64\<close>

text \<open>
  \<open>floor_log2\<close> finds the binade of a positive rational; the value \<open>binary64\<close> returns is
  a significand of at most 53 bits times the quantum of that binade, and is within half a
  quantum of its argument.
\<close>

lemma pow2_pos: "0 < pow2 k"
  by (simp add: pow2_def)

lemma pow2_succ: "pow2 (k + 1) = 2 * pow2 k"
proof (cases "k \<ge> 0")
  case True
  then show ?thesis
    by (simp add: pow2_def nat_add_distrib)
next
  case False
  then have "nat (- k) = Suc (nat (- (k + 1)))"
    by simp
  then show ?thesis
    using False by (simp add: pow2_def)
qed

lemma pow2_pred: "pow2 (k - 1) = pow2 k / 2"
  using pow2_succ[of "k - 1"] by simp

lemma pow2_power_int: "pow2 k = 2 powi k"
  by (simp add: pow2_def power_int_def field_simps)

lemma pow2_add: "pow2 (a + b) = pow2 a * pow2 b"
  by (simp add: pow2_power_int power_int_add)

lemma pow2_mono: "a \<le> b \<Longrightarrow> pow2 a \<le> pow2 b"
  by (simp add: pow2_power_int power_int_increasing)

lemma floor_log2_bracket:
  "0 < x \<Longrightarrow> pow2 (floor_log2 x) \<le> x \<and> x < pow2 (floor_log2 x + 1)"
proof (induction x rule: floor_log2.induct)
  case (1 x)
  show ?case
  proof (cases "x < 1")
    case True
    with 1 have ih:
      "pow2 (floor_log2 (2 * x)) \<le> 2 * x \<and> 2 * x < pow2 (floor_log2 (2 * x) + 1)"
      by simp
    have "floor_log2 x = floor_log2 (2 * x) - 1"
      using True 1(3) by (subst floor_log2.simps) simp
    then show ?thesis
      using ih pow2_pred[of "floor_log2 (2 * x)"] pow2_succ[of "floor_log2 (2 * x)"]
      by simp
  next
    case False
    show ?thesis
    proof (cases "2 \<le> x")
      case True
      with 1 False have ih:
        "pow2 (floor_log2 (x / 2)) \<le> x / 2 \<and> x / 2 < pow2 (floor_log2 (x / 2) + 1)"
        by simp
      have "floor_log2 x = floor_log2 (x / 2) + 1"
        using True False 1(3) by (subst floor_log2.simps) simp
      then show ?thesis
        using ih pow2_succ[of "floor_log2 (x / 2)"] pow2_succ[of "floor_log2 (x / 2) + 1"]
        by simp
    next
      case less: False
      have "floor_log2 x = 0"
        using less False 1(3) by (subst floor_log2.simps) simp
      then show ?thesis
        using less False by (simp add: pow2_def)
    qed
  qed
qed

lemma round_half_even_near: "\<bar>of_int (round_half_even y) - y\<bar> \<le> 1 / 2"
proof -
  define n where "n = \<lfloor>y\<rfloor>"
  have "of_int n \<le> y" and "y < of_int n + 1"
    unfolding n_def by linarith+
  then show ?thesis
    unfolding round_half_even_def Let_def n_def[symmetric] by (simp add: abs_le_iff)
qed

lemma round_half_even_le_int: "y \<le> of_int n \<Longrightarrow> round_half_even y \<le> n"
proof -
  assume a: "y \<le> of_int n"
  define k where "k = \<lfloor>y\<rfloor>"
  have k: "of_int k \<le> y" "y < of_int k + 1"
    unfolding k_def by linarith+
  have "k \<le> n"
    using a k by linarith
  moreover have "k = n \<Longrightarrow> y = of_int n"
    using a k by linarith
  ultimately show ?thesis
    unfolding round_half_even_def Let_def k_def[symmetric] using a k
    by (auto; linarith)
qed

lemma round_half_even_nonneg: "0 \<le> y \<Longrightarrow> 0 \<le> round_half_even y"
  unfolding round_half_even_def Let_def by auto

lemma binary64_error:
  assumes "x \<noteq> 0"
  shows "\<bar>binary64 x - x\<bar> \<le> pow2 (max (floor_log2 \<bar>x\<bar>) (- 1022) - 52) / 2"
proof -
  define q where "q = pow2 (max (floor_log2 \<bar>x\<bar>) (- 1022) - 52)"
  define m where "m = round_half_even (\<bar>x\<bar> / q)"
  have q: "0 < q"
    by (simp add: q_def pow2_pos)
  have b: "binary64 x = sgn x * of_int m * q"
    using assms by (simp add: binary64_def Let_def q_def m_def)
  have "\<bar>binary64 x - x\<bar> = \<bar>of_int m * q - \<bar>x\<bar>\<bar>"
  proof (cases "0 < x")
    case True
    then show ?thesis
      by (simp add: b)
  next
    case False
    with assms have "x < 0"
      by simp
    then have "binary64 x - x = - (of_int m * q - \<bar>x\<bar>)"
      by (simp add: b)
    then show ?thesis
      by simp
  qed
  also have "\<dots> = \<bar>(of_int m - \<bar>x\<bar> / q) * q\<bar>"
    using q by (simp add: left_diff_distrib)
  also have "\<dots> = \<bar>of_int m - \<bar>x\<bar> / q\<bar> * q"
    using q by (simp add: abs_mult)
  also have "\<dots> \<le> (1 / 2) * q"
    using round_half_even_near[of "\<bar>x\<bar> / q"] q unfolding m_def
    by (intro mult_right_mono) auto
  finally show ?thesis
    by (simp add: q_def)
qed

lemma binary64_significand:
  assumes "x \<noteq> 0"
  shows "\<exists>m. binary64 x = sgn x * of_int m * pow2 (max (floor_log2 \<bar>x\<bar>) (- 1022) - 52)
     \<and> 0 \<le> m \<and> m \<le> 2 ^ 53"
proof -
  define e where "e = max (floor_log2 \<bar>x\<bar>) (- 1022)"
  define q where "q = pow2 (e - 52)"
  define m where "m = round_half_even (\<bar>x\<bar> / q)"
  have q: "0 < q"
    by (simp add: q_def pow2_pos)
  have "\<bar>x\<bar> < pow2 (floor_log2 \<bar>x\<bar> + 1)"
    using floor_log2_bracket[of "\<bar>x\<bar>"] assms by simp
  also have "\<dots> \<le> pow2 (e + 1)"
    by (rule pow2_mono) (simp add: e_def)
  also have "\<dots> = pow2 53 * q"
    unfolding q_def using pow2_add[of 53 "e - 52"] by (simp add: add.commute)
  finally have "\<bar>x\<bar> / q < pow2 53"
    using q by (simp add: field_simps)
  then have "\<bar>x\<bar> / q \<le> of_int (2 ^ 53)"
    by (simp add: pow2_def)
  then have "m \<le> 2 ^ 53"
    unfolding m_def by (rule round_half_even_le_int)
  moreover have "0 \<le> m"
    unfolding m_def using q by (intro round_half_even_nonneg) simp
  moreover have "binary64 x = sgn x * of_int m * pow2 (max (floor_log2 \<bar>x\<bar>) (- 1022) - 52)"
    using assms by (simp add: binary64_def Let_def q_def m_def e_def)
  ultimately show ?thesis
    by blast
qed

subsection \<open>Monotonicity\<close>

text \<open>
  Rounding keeps the order of the rationals it rounds, and so do the sum, the product with
  a non-negative factor and the quotient by a positive divisor.
\<close>

lemma pow2_less_imp: "pow2 a < pow2 b \<Longrightarrow> a < b"
  using pow2_mono[of b a] by (cases "a < b") auto

lemma floor_log2_mono:
  assumes "0 < x" and "x \<le> y"
  shows "floor_log2 x \<le> floor_log2 y"
proof -
  have "pow2 (floor_log2 x) \<le> x"
    using floor_log2_bracket[OF assms(1)] by simp
  also have "x \<le> y" by fact
  also have "y < pow2 (floor_log2 y + 1)"
    using floor_log2_bracket[of y] assms by simp
  finally have "floor_log2 x < floor_log2 y + 1"
    by (rule pow2_less_imp)
  then show ?thesis by simp
qed

lemma round_half_even_ge_int: "of_int n \<le> y \<Longrightarrow> n \<le> round_half_even y"
proof -
  assume a: "of_int n \<le> y"
  define k where "k = \<lfloor>y\<rfloor>"
  have "n \<le> k" unfolding k_def using a by (simp add: le_floor_iff)
  then show ?thesis
    unfolding round_half_even_def Let_def k_def[symmetric] by auto
qed

lemma round_half_even_mono:
  assumes "a \<le> b"
  shows "round_half_even a \<le> round_half_even b"
proof (cases "\<lfloor>a\<rfloor> = \<lfloor>b\<rfloor>")
  case True
  then show ?thesis
    using assms unfolding round_half_even_def Let_def by auto
next
  case False
  have "\<lfloor>a\<rfloor> \<le> \<lfloor>b\<rfloor>" using assms by (rule floor_mono)
  with False have lt: "\<lfloor>a\<rfloor> + 1 \<le> \<lfloor>b\<rfloor>" by simp
  have "a \<le> of_int (\<lfloor>a\<rfloor> + 1)" by linarith
  then have "round_half_even a \<le> \<lfloor>a\<rfloor> + 1" by (rule round_half_even_le_int)
  also have "\<dots> \<le> \<lfloor>b\<rfloor>" by (rule lt)
  also have "\<dots> \<le> round_half_even b"
    by (rule round_half_even_ge_int) linarith
  finally show ?thesis .
qed

lemma binary64_zero: "binary64 0 = 0"
  by (simp add: binary64_def)

lemma binary64_pos_unfold:
  "0 < x \<Longrightarrow> binary64 x =
     of_int (round_half_even (x / pow2 (max (floor_log2 x) (- 1022) - 52)))
       * pow2 (max (floor_log2 x) (- 1022) - 52)"
  by (simp add: binary64_def Let_def)

lemma binary64_nonneg: "0 \<le> x \<Longrightarrow> 0 \<le> binary64 x"
proof (cases "x = 0")
  case True
  then show ?thesis by (simp add: binary64_zero)
next
  case False
  assume "0 \<le> x"
  with False have x: "0 < x" by simp
  have "0 \<le> round_half_even (x / pow2 (max (floor_log2 x) (- 1022) - 52))"
    using x pow2_pos by (intro round_half_even_nonneg) (simp add: less_imp_le)
  then show ?thesis
    unfolding binary64_pos_unfold[OF x] using pow2_pos[of "max (floor_log2 x) (- 1022) - 52"]
    by (simp add: less_imp_le)
qed

lemma binary64_upper:
  assumes "0 < x"
  shows "binary64 x \<le> pow2 (max (floor_log2 x) (- 1022) + 1)"
proof -
  define e where "e = max (floor_log2 x) (- 1022)"
  define q where "q = pow2 (e - 52)"
  have q: "0 < q" by (simp add: q_def pow2_pos)
  have "x < pow2 (floor_log2 x + 1)"
    using floor_log2_bracket[OF assms] by simp
  also have "\<dots> \<le> pow2 (e + 1)"
    by (rule pow2_mono) (simp add: e_def)
  also have "\<dots> = pow2 53 * q"
    unfolding q_def using pow2_add[of 53 "e - 52"] by (simp add: add.commute)
  finally have "x / q < pow2 53"
    using q by (simp add: field_simps)
  then have "x / q \<le> of_int (2 ^ 53)"
    by (simp add: pow2_def)
  then have "round_half_even (x / q) \<le> 2 ^ 53"
    by (rule round_half_even_le_int)
  then have "of_int (round_half_even (x / q)) \<le> (of_int (2 ^ 53) :: rat)"
    by (simp only: of_int_le_iff)
  then have "of_int (round_half_even (x / q)) * q \<le> of_int (2 ^ 53) * q"
    using q by (intro mult_right_mono) (simp_all add: less_imp_le)
  also have "of_int (2 ^ 53) * q = pow2 (e + 1)"
    unfolding q_def using pow2_add[of 53 "e - 52"] by (simp add: add.commute pow2_def)
  finally show ?thesis
    unfolding binary64_pos_unfold[OF assms] e_def q_def .
qed

lemma binary64_lower:
  assumes "0 < x" and "- 1022 \<le> floor_log2 x"
  shows "pow2 (floor_log2 x) \<le> binary64 x"
proof -
  define e where "e = floor_log2 x"
  define q where "q = pow2 (e - 52)"
  have m: "max (floor_log2 x) (- 1022) = e"
    using assms(2) by (simp add: e_def)
  have q: "0 < q" by (simp add: q_def pow2_pos)
  have pe: "pow2 e = pow2 52 * q"
    unfolding q_def using pow2_add[of 52 "e - 52"] by simp
  have "pow2 e \<le> x"
    using floor_log2_bracket[OF assms(1)] by (simp add: e_def)
  then have "pow2 52 \<le> x / q"
    using q by (simp add: pe field_simps)
  then have "of_int (2 ^ 52) \<le> x / q"
    by (simp add: pow2_def)
  then have "2 ^ 52 \<le> round_half_even (x / q)"
    by (rule round_half_even_ge_int)
  then have "(of_int (2 ^ 52) :: rat) \<le> of_int (round_half_even (x / q))"
    by (simp only: of_int_le_iff)
  then have "of_int (2 ^ 52) * q \<le> of_int (round_half_even (x / q)) * q"
    using q by (intro mult_right_mono) (simp_all add: less_imp_le)
  moreover have "pow2 52 = (of_int (2 ^ 52) :: rat)"
    by (simp add: pow2_def)
  then have "of_int (2 ^ 52) * q = pow2 e"
    unfolding pe by simp
  ultimately show ?thesis
    unfolding binary64_pos_unfold[OF assms(1)] m q_def e_def by simp
qed

lemma binary64_mono_pos:
  assumes "0 < x" and "x \<le> y"
  shows "binary64 x \<le> binary64 y"
proof -
  have y: "0 < y" using assms by simp
  define ex where "ex = max (floor_log2 x) (- 1022)"
  define ey where "ey = max (floor_log2 y) (- 1022)"
  have le: "ex \<le> ey"
    using floor_log2_mono[OF assms] by (simp add: ex_def ey_def)
  show ?thesis
  proof (cases "ex = ey")
    case True
    have "x / pow2 (ey - 52) \<le> y / pow2 (ey - 52)"
      using assms(2) pow2_pos[of "ey - 52"] by (simp add: divide_right_mono less_imp_le)
    then have "round_half_even (x / pow2 (ey - 52)) \<le> round_half_even (y / pow2 (ey - 52))"
      by (rule round_half_even_mono)
    then have "(of_int (round_half_even (x / pow2 (ey - 52))) :: rat)
        \<le> of_int (round_half_even (y / pow2 (ey - 52)))"
      by (simp only: of_int_le_iff)
    then have "of_int (round_half_even (x / pow2 (ey - 52))) * pow2 (ey - 52)
        \<le> of_int (round_half_even (y / pow2 (ey - 52))) * pow2 (ey - 52)"
      using pow2_pos[of "ey - 52"] by (intro mult_right_mono) (simp_all add: less_imp_le)
    then show ?thesis
      unfolding binary64_pos_unfold[OF assms(1)] binary64_pos_unfold[OF y]
      using True by (simp add: ex_def ey_def)
  next
    case False
    with le have lt: "ex + 1 \<le> ey" by simp
    then have "- 1022 < ey" using ex_def by simp
    then have fy: "ey = floor_log2 y" "- 1022 \<le> floor_log2 y"
      by (simp_all add: ey_def max_def split: if_splits)
    have "binary64 x \<le> pow2 (ex + 1)"
      using binary64_upper[OF assms(1)] by (simp add: ex_def)
    also have "\<dots> \<le> pow2 ey"
      using lt by (rule pow2_mono)
    also have "\<dots> \<le> binary64 y"
      using binary64_lower[OF y fy(2)] by (simp add: fy(1))
    finally show ?thesis .
  qed
qed

lemma binary64_mono: "0 \<le> x \<Longrightarrow> x \<le> y \<Longrightarrow> binary64 x \<le> binary64 y"
proof (cases "x = 0")
  case True
  assume "0 \<le> x" "x \<le> y"
  then show ?thesis using True binary64_nonneg[of y] by (simp add: binary64_zero)
next
  case False
  assume "0 \<le> x" "x \<le> y"
  with False show ?thesis by (intro binary64_mono_pos) simp_all
qed

lemma binary64_nonpos: "x \<le> 0 \<Longrightarrow> binary64 x \<le> 0"
proof (cases "x = 0")
  case True
  then show ?thesis by (simp add: binary64_zero)
next
  case False
  assume "x \<le> 0"
  with False have x: "x < 0" by simp
  define q where "q = pow2 (max (floor_log2 \<bar>x\<bar>) (- 1022) - 52)"
  have q: "0 < q" by (simp add: q_def pow2_pos)
  have "0 \<le> round_half_even (\<bar>x\<bar> / q)"
    using q by (intro round_half_even_nonneg) simp
  then have "0 \<le> (of_int (round_half_even (\<bar>x\<bar> / q)) :: rat) * q"
    using q by simp
  moreover have "binary64 x = - (of_int (round_half_even (\<bar>x\<bar> / q)) * q)"
    using x by (simp add: binary64_def Let_def q_def)
  ultimately show ?thesis by simp
qed

lemma number_plus_nonneg: "0 \<le> a \<Longrightarrow> 0 \<le> b \<Longrightarrow> 0 \<le> number_plus a b"
  by (simp add: number_plus_def binary64_nonneg)

lemma number_times_nonneg: "0 \<le> a \<Longrightarrow> 0 \<le> b \<Longrightarrow> 0 \<le> number_times a b"
  by (simp add: number_times_def binary64_nonneg)

lemma number_div_nonneg: "0 \<le> a \<Longrightarrow> 0 \<le> b \<Longrightarrow> 0 \<le> number_div a b"
  by (simp add: number_div_def binary64_nonneg)

lemma number_plus_mono:
  "0 \<le> a \<Longrightarrow> 0 \<le> b \<Longrightarrow> a \<le> a' \<Longrightarrow> b \<le> b' \<Longrightarrow> number_plus a b \<le> number_plus a' b'"
  unfolding number_plus_def by (intro binary64_mono) simp_all

lemma number_times_mono:
  "0 \<le> a \<Longrightarrow> 0 \<le> b \<Longrightarrow> a \<le> a' \<Longrightarrow> number_times a b \<le> number_times a' b"
  unfolding number_times_def by (intro binary64_mono) (simp_all add: mult_right_mono)

lemma number_div_mono:
  "0 \<le> a \<Longrightarrow> a \<le> a' \<Longrightarrow> 0 < b \<Longrightarrow> number_div a b \<le> number_div a' b"
  unfolding number_div_def by (intro binary64_mono) (simp_all add: divide_right_mono)

lemma number_times_commute: "number_times a b = number_times b a"
  by (simp add: number_times_def mult.commute)

subsection \<open>Evaluation of constants\<close>

lemmas binary64_eval = binary64_def floor_log2.simps pow2_def round_half_even_def Let_def
  floor_numeral_div

lemmas number_eval = number_plus_def number_div_def number_times_def binary64_eval

lemma binary64_weight_04: "binary64 0.4 = 3602879701896397 / 9007199254740992"
  by (simp add: binary64_eval)

lemma binary64_weight_03: "binary64 0.3 = 5404319552844595 / 18014398509481984"
  by (simp add: binary64_eval)

lemma weights_nonneg: "0 \<le> binary64 0.4" "0 \<le> binary64 0.3"
  by (simp_all add: binary64_nonneg)

lemma full_weights:
  "number_times 100 (binary64 0.4) = 40"
  "number_times 100 (binary64 0.3) = 30"
  "number_plus 40 30 = 70"
  "number_plus 70 30 = 100"
  by (simp_all add: binary64_weight_04 binary64_weight_03) (simp_all add: number_eval)

subsection \<open>Ages in days\<close>

text \<open>
  An age is an integer number of milliseconds divided by the milliseconds of a day. The
  rounded quotient is below 7 or 30, or above 180, exactly when the exact quotient is.
\<close>

lemma quotient_less_binary64:
  assumes "0 < T"
    and "binary64 (of_int T) = of_int T"
    and "binary64 (of_int (T * 86400000 - 1) / 86400000) < of_int T"
  shows "number_div (of_int k) 86400000 < of_int T \<longleftrightarrow> (of_int k :: rat) / 86400000 < of_int T"
proof
  assume l: "number_div (of_int k) 86400000 < of_int T"
  show "(of_int k :: rat) / 86400000 < of_int T"
  proof (rule ccontr)
    assume "\<not> (of_int k :: rat) / 86400000 < of_int T"
    then have ge: "(of_int T :: rat) \<le> of_int k / 86400000"
      by simp
    have "binary64 (of_int T) \<le> binary64 (of_int k / 86400000)"
      using ge assms(1) by (intro binary64_mono) simp_all
    then show False
      using l assms(2) by (simp add: number_div_def)
  qed
next
  assume r: "(of_int k :: rat) / 86400000 < of_int T"
  then have "(of_int k :: rat) < of_int (T * 86400000)"
    by (simp add: field_simps)
  then have "k < T * 86400000"
    by (simp only: of_int_less_iff)
  then have k: "k \<le> T * 86400000 - 1"
    by simp
  show "number_div (of_int k) 86400000 < of_int T"
  proof (cases "k \<le> 0")
    case True
    then have "(of_int k :: rat) / 86400000 \<le> 0"
      by simp
    then have "binary64 (of_int k / 86400000) \<le> 0"
      by (rule binary64_nonpos)
    then show ?thesis
      using assms(1) by (simp add: number_div_def)
  next
    case False
    then have "(0::rat) \<le> of_int k / 86400000"
      by simp
    moreover have "(of_int k :: rat) \<le> of_int (T * 86400000 - 1)"
      using k by (simp only: of_int_le_iff)
    then have "(of_int k :: rat) / 86400000 \<le> of_int (T * 86400000 - 1) / 86400000"
      by (simp add: divide_right_mono)
    ultimately have "binary64 (of_int k / 86400000)
        \<le> binary64 (of_int (T * 86400000 - 1) / 86400000)"
      by (rule binary64_mono)
    then show ?thesis
      using assms(3) by (simp add: number_div_def)
  qed
qed

lemma quotient_greater_binary64:
  assumes "0 \<le> T"
    and "binary64 (of_int T) = of_int T"
    and "of_int T < binary64 (of_int (T * 86400000 + 1) / 86400000)"
  shows "of_int T < number_div (of_int k) 86400000 \<longleftrightarrow> of_int T < (of_int k :: rat) / 86400000"
proof
  assume l: "of_int T < number_div (of_int k) 86400000"
  show "of_int T < (of_int k :: rat) / 86400000"
  proof (rule ccontr)
    assume "\<not> of_int T < (of_int k :: rat) / 86400000"
    then have le: "(of_int k :: rat) / 86400000 \<le> of_int T"
      by simp
    have "binary64 (of_int k / 86400000) \<le> of_int T"
    proof (cases "k \<le> 0")
      case True
      then have "(of_int k :: rat) / 86400000 \<le> 0"
        by simp
      then have "binary64 (of_int k / 86400000) \<le> 0"
        by (rule binary64_nonpos)
      then show ?thesis
        using assms(1) by simp
    next
      case False
      then have "(0::rat) \<le> of_int k / 86400000"
        by simp
      then have "binary64 (of_int k / 86400000) \<le> binary64 (of_int T)"
        using le by (rule binary64_mono)
      then show ?thesis
        using assms(2) by simp
    qed
    then show False
      using l by (simp add: number_div_def)
  qed
next
  assume r: "of_int T < (of_int k :: rat) / 86400000"
  then have "(of_int (T * 86400000) :: rat) < of_int k"
    by (simp add: field_simps)
  then have "T * 86400000 < k"
    by (simp only: of_int_less_iff)
  then have "T * 86400000 + 1 \<le> k"
    by simp
  then have "(of_int (T * 86400000 + 1) :: rat) \<le> of_int k"
    by (simp only: of_int_le_iff)
  then have "(of_int (T * 86400000 + 1) :: rat) / 86400000 \<le> of_int k / 86400000"
    by (simp add: divide_right_mono)
  moreover have "(0::rat) \<le> of_int (T * 86400000 + 1) / 86400000"
    using assms(1) by simp
  ultimately have "binary64 (of_int (T * 86400000 + 1) / 86400000)
      \<le> binary64 (of_int k / 86400000)"
    by (intro binary64_mono)
  then show "of_int T < number_div (of_int k) 86400000"
    using assms(3) by (simp add: number_div_def)
qed

lemma day_constants_binary64:
  "binary64 7 = 7" "binary64 30 = 30" "binary64 180 = 180"
  "binary64 (604799999 / 86400000) < 7"
  "binary64 (2591999999 / 86400000) < 30"
  "180 < binary64 (15552000001 / 86400000)"
  by (simp_all add: binary64_eval)

lemma days_less_binary64:
  "number_div (of_int k) (24 * 60 * 60 * 1000) < 7
     \<longleftrightarrow> (of_int k :: rat) / (24 * 60 * 60 * 1000) < 7"
  "number_div (of_int k) (24 * 60 * 60 * 1000) < 30
     \<longleftrightarrow> (of_int k :: rat) / (24 * 60 * 60 * 1000) < 30"
  using quotient_less_binary64[of 7 k] quotient_less_binary64[of 30 k]
  by (simp_all add: day_constants_binary64)

lemma days_greater_binary64:
  "number_div (of_int k) (1000 * 60 * 60 * 24) > 180
     \<longleftrightarrow> (of_int k :: rat) / (1000 * 60 * 60 * 24) > 180"
  using quotient_greater_binary64[of 180 k]
  by (simp add: day_constants_binary64)

text \<open>
  So the recency score and the stale rule, which the definitions state with the exact
  quotient, are what the program computes with the rounded one.
\<close>

lemma recencyScore_first_record:
  "recencyScore now exploits =
     (case exploits of
        [] \<Rightarrow> 0
      | e # es \<Rightarrow>
          (case timestamp e of
             None \<Rightarrow> 0
           | Some t \<Rightarrow>
               let days = (of_int (now - t) :: rat) / (24 * 60 * 60 * 1000)
               in if days < 7 then 100 else if days < 30 then 50 else 0))"
  by (simp add: recencyScore_def daysSinceLatest_def Let_def
      split: list.splits option.splits)

lemma recencyScore_binary64:
  "recencyScore now exploits =
     (case exploits of
        [] \<Rightarrow> 0
      | e # es \<Rightarrow>
          (case timestamp e of
             None \<Rightarrow> 0
           | Some t \<Rightarrow>
               let d = number_div (of_int (now - t)) (24 * 60 * 60 * 1000)
               in if d < 7 then 100 else if d < 30 then 50 else 0))"
  unfolding recencyScore_first_record
  by (simp only: Let_def days_less_binary64)

lemma stale_binary64:
  "(case getDaysSince now updated of None \<Rightarrow> False | Some d \<Rightarrow> d > staleThresholdDays)
     = (case updated of
          None \<Rightarrow> False
        | Some t \<Rightarrow> number_div (of_int (now - t)) (1000 * 60 * 60 * 24) > 180)"
proof (cases updated)
  case None
  then show ?thesis
    by (simp add: getDaysSince_def)
next
  case (Some t)
  then show ?thesis
    by (simp only: getDaysSince_def staleThresholdDays_def option.case days_greater_binary64)
qed

section \<open>The protocol risk score\<close>

subsection \<open>The recency component\<close>

lemma foldl_max_head: "\<forall>t'\<in>set ts. t' \<le> (t::int) \<Longrightarrow> foldl max t ts = t"
  by (induction ts) (auto simp: max_def)

lemma map_filter_all_None: "\<forall>e\<in>set es. f e = None \<Longrightarrow> List.map_filter f es = []"
  by (induction es) auto

lemma set_map_filter: "set (List.map_filter f es) = {t. \<exists>e\<in>set es. f e = Some t}"
  by (induction es) (auto split: option.splits)

lemma spec_latest_head:
  assumes "\<forall>e'\<in>set es. \<forall>t'. timestamp e' = Some t' \<longrightarrow> (\<exists>t. timestamp e = Some t \<and> t' \<le> t)"
  shows "spec_latest (e # es) = timestamp e"
proof (cases "timestamp e")
  case None
  with assms have "\<forall>e'\<in>set es. timestamp e' = None"
    by (metis option.exhaust option.distinct(1))
  then show ?thesis
    using None by (simp add: spec_latest_def map_filter_all_None)
next
  case (Some t)
  with assms have "\<forall>t'\<in>set (List.map_filter timestamp es). t' \<le> t"
    by (auto simp: set_map_filter)
  then show ?thesis
    using Some by (simp add: spec_latest_def foldl_max_head)
qed

lemma recency_first_record:
  "recency (factors (calculateRiskScore now exploits p)) =
     (case exploits of
        [] \<Rightarrow> 0
      | e # es \<Rightarrow>
          (case timestamp e of
             None \<Rightarrow> 0
           | Some t \<Rightarrow>
               let days = (of_int (now - t) :: rat) / (24 * 60 * 60 * 1000)
               in if days < 7 then 100 else if days < 30 then 50 else 0))"
  by (simp add: calculateRiskScore_def recencyScore_def daysSinceLatest_def Let_def
      split: list.splits option.splits)

text \<open>
  Claim C1, as the claim states it, fails: the code reads the first record of the
  sequence, \<^verbatim>\<open>exploits[0]\<close>, and does not look for the most recent one. For a record 40
  days old followed by a record one day old the recency factor is 0, where the most recent
  record of the sequence gives 100.
\<close>

theorem C1_first_record_not_most_recent:
  "recency (factors (calculateRiskScore ex_now
      [ex_exploit high 100 (ex_now - 40 * day), ex_exploit high 100 (ex_now - 1 * day)] ''p'')) = 0
   \<and> spec_recency_score ex_now
      [ex_exploit high 100 (ex_now - 40 * day), ex_exploit high 100 (ex_now - 1 * day)] = 100"
  by (simp add: score_defs ex_exploit_def ex_now_def day_def spec_recency_score_def
      spec_latest_def Let_def)

text \<open>
  Claim C1, amended. The recency component is determined by the first record of the
  sequence: 100 if that record is less than 7 days old, 50 if it is less than 30 days old,
  otherwise 0 (also when its timestamp is no date); it is 0 for the empty sequence.
  Whenever no record of the sequence is more recent than the first one, as in a sequence
  ordered newest first, this is the value the most recent record by timestamp gives.
\<close>

theorem C1_recency_of_first_record:
  "recency (factors (calculateRiskScore now [] p)) = 0
   \<and> recency (factors (calculateRiskScore now (e # es) p)) =
       (case timestamp e of
          None \<Rightarrow> 0
        | Some t \<Rightarrow>
            let days = (of_int (now - t) :: rat) / (24 * 60 * 60 * 1000)
            in if days < 7 then 100 else if days < 30 then 50 else 0)
   \<and> ((\<forall>e'\<in>set es. \<forall>t'. timestamp e' = Some t' \<longrightarrow> (\<exists>t. timestamp e = Some t \<and> t' \<le> t))
       \<longrightarrow> recency (factors (calculateRiskScore now (e # es) p))
           = spec_recency_score now (e # es))"
  by (auto simp: recency_first_record spec_recency_score_def spec_latest_head
      split: option.splits)

theorem C1_recency_of_first_record_witness:
  "recency (factors (calculateRiskScore ex_now
      [ex_exploit high 100 (ex_now - 1 * day), ex_exploit high 100 (ex_now - 40 * day)] ''p'')) = 100
   \<and> spec_recency_score ex_now
      [ex_exploit high 100 (ex_now - 1 * day), ex_exploit high 100 (ex_now - 40 * day)] = 100"
  using C1_recency_of_first_record[of ex_now "''p''" "ex_exploit high 100 (ex_now - 1 * day)"
      "[ex_exploit high 100 (ex_now - 40 * day)]"]
  by (simp add: ex_exploit_def ex_now_def day_def)

subsection \<open>Level and recommendation\<close>

lemma riskLevel_of_rounded:
  "riskLevel x = spec_level (round x) \<longleftrightarrow>
     \<not> (49 / 2 \<le> x \<and> x < 25) \<and> \<not> (99 / 2 \<le> x \<and> x < 50) \<and> \<not> (149 / 2 \<le> x \<and> x < 75)"
proof -
  have r: "\<And>t::int. t \<le> round x \<longleftrightarrow> of_int t - 1 / 2 \<le> x"
    unfolding round_def by (simp add: le_floor_iff) linarith
  show ?thesis
    unfolding riskLevel_def spec_level_def using r[of 25] r[of 50] r[of 75]
    by auto
qed

text \<open>
  Claim C2, as the claim states it, fails: the level is chosen from the weighted sum
  before it is rounded. One record with a loss of 8,200,000, 40 days old, has the weighted
  sum 24.6: the returned score is 25, the returned level is LOW with the recommendation
  ACCEPTABLE, and the thresholds applied to the score 25 give MEDIUM with MONITOR.
\<close>

theorem C2_level_below_rounded_score:
  "score (calculateRiskScore ex_now [ex_exploit high 8200000 (ex_now - 40 * day)] ''p'') = 25
   \<and> risk_level (calculateRiskScore ex_now [ex_exploit high 8200000 (ex_now - 40 * day)] ''p'')
       = LOW
   \<and> recommendation
        (calculateRiskScore ex_now [ex_exploit high 8200000 (ex_now - 40 * day)] ''p'')
       = ''ACCEPTABLE - Low risk profile''
   \<and> spec_level 25 = (MEDIUM, ''MONITOR - Some historical issues'')"
proof -
  let ?xs = "[ex_exploit high 8200000 (ex_now - 40 * day)]"
  have e: "exploitFrequencyScore ex_now ?xs = 0"
    by (simp add: exploitFrequencyScore_def recentExploits_def thirtyDaysAgo_def ex_exploit_def
        ex_now_def day_def)
      (simp add: number_eval)
  have t: "totalLossScore ?xs = 82"
    by (simp add: totalLossScore_def totalLoss_def lossOrZero_def ex_exploit_def)
      (simp add: number_eval)
  have r: "recencyScore ex_now ?xs = 0"
    by (simp add: recencyScore_def daysSinceLatest_def ex_exploit_def ex_now_def day_def)
  have s: "riskScore ex_now ?xs = 6924284427082137 / 281474976710656"
    unfolding riskScore_def e t r
    by (simp add: binary64_weight_04 binary64_weight_03) (simp add: number_eval)
  show ?thesis
    unfolding calculateRiskScore_def s
    by (simp add: riskLevel_def spec_level_def round_def floor_numeral_div)
qed

text \<open>
  Claim C2, amended. The returned level and recommendation are those the thresholds 75,
  50 and 25 give for the unrounded weighted sum, whose rounding is the returned score.
  They are the ones the thresholds give for the returned integer score exactly when the
  weighted sum is not within one half below a threshold, that is in none of
  \<open>[24.5, 25)\<close>, \<open>[49.5, 50)\<close>, \<open>[74.5, 75)\<close>.
\<close>

theorem C2_level_of_unrounded_sum:
  "(risk_level (calculateRiskScore now exploits p),
    recommendation (calculateRiskScore now exploits p)) = riskLevel (riskScore now exploits)
   \<and> score (calculateRiskScore now exploits p) = round (riskScore now exploits)
   \<and> ((risk_level (calculateRiskScore now exploits p),
        recommendation (calculateRiskScore now exploits p))
         = spec_level (score (calculateRiskScore now exploits p))
      \<longleftrightarrow> \<not> (49 / 2 \<le> riskScore now exploits \<and> riskScore now exploits < 25)
        \<and> \<not> (99 / 2 \<le> riskScore now exploits \<and> riskScore now exploits < 50)
        \<and> \<not> (149 / 2 \<le> riskScore now exploits \<and> riskScore now exploits < 75))"
  using riskLevel_of_rounded[of "riskScore now exploits"]
  by (simp add: calculateRiskScore_def)

theorem C2_level_of_unrounded_sum_witness:
  "riskScore ex_now [ex_exploit critical 5000000 (ex_now - 3 * day)] = 49
   \<and> (risk_level (calculateRiskScore ex_now [ex_exploit critical 5000000 (ex_now - 3 * day)] ''p''),
       recommendation
         (calculateRiskScore ex_now [ex_exploit critical 5000000 (ex_now - 3 * day)] ''p''))
      = spec_level
          (score (calculateRiskScore ex_now [ex_exploit critical 5000000 (ex_now - 3 * day)] ''p''))"
proof -
  let ?xs = "[ex_exploit critical 5000000 (ex_now - 3 * day)]"
  have e: "exploitFrequencyScore ex_now ?xs = 10"
    by (simp add: exploitFrequencyScore_def recentExploits_def thirtyDaysAgo_def ex_exploit_def
        ex_now_def day_def)
      (simp add: number_eval)
  have t: "totalLossScore ?xs = 50"
    by (simp add: totalLossScore_def totalLoss_def lossOrZero_def ex_exploit_def)
      (simp add: number_eval)
  have r: "recencyScore ex_now ?xs = 100"
    by (simp add: recencyScore_def daysSinceLatest_def ex_exploit_def ex_now_def day_def)
  have s: "riskScore ex_now ?xs = 49"
    unfolding riskScore_def e t r
    by (simp add: binary64_weight_04 binary64_weight_03) (simp add: number_eval)
  show ?thesis
    using C2_level_of_unrounded_sum[of ex_now
        "[ex_exploit critical 5000000 (ex_now - 3 * day)]" "''p''"]
    unfolding s by (simp add: riskLevel_def spec_level_def)
qed

subsection \<open>Bounds of the components\<close>

lemma lossOrZero_nonneg:
  "\<forall>v. loss_usd e = Some v \<longrightarrow> 0 \<le> v \<Longrightarrow> 0 \<le> lossOrZero e"
  by (auto simp: lossOrZero_def split: option.splits)

lemma foldl_loss_nonneg:
  assumes "\<forall>e\<in>set xs. \<forall>v. loss_usd e = Some v \<longrightarrow> 0 \<le> v" and "0 \<le> a"
  shows "0 \<le> foldl (\<lambda>sum e. number_plus sum (lossOrZero e)) a xs"
  using assms
proof (induction xs arbitrary: a)
  case Nil
  then show ?case by simp
next
  case (Cons e xs)
  have "0 \<le> number_plus a (lossOrZero e)"
    using Cons.prems by (intro number_plus_nonneg lossOrZero_nonneg) simp_all
  then show ?case
    using Cons by simp
qed

lemma totalLoss_nonneg:
  assumes "\<forall>e\<in>set xs. \<forall>v. loss_usd e = Some v \<longrightarrow> 0 \<le> v"
  shows "0 \<le> totalLoss xs"
  unfolding totalLoss_def using foldl_loss_nonneg[OF assms] by simp

lemma exploitFrequencyScore_bounds:
  "0 \<le> exploitFrequencyScore now xs \<and> exploitFrequencyScore now xs \<le> 100"
  unfolding exploitFrequencyScore_def
  by (simp add: number_times_nonneg number_div_nonneg)

lemma totalLossScore_bounds:
  "0 \<le> totalLoss xs \<Longrightarrow> 0 \<le> totalLossScore xs \<and> totalLossScore xs \<le> 100"
  unfolding totalLossScore_def
  by (simp add: number_times_nonneg number_div_nonneg)

lemma recencyScore_cases: "recencyScore now xs \<in> {0, 50, 100}"
  by (simp add: recencyScore_def split: option.splits)

lemma recencyScore_bounds: "0 \<le> recencyScore now xs \<and> recencyScore now xs \<le> 100"
  using recencyScore_cases[of now xs] by auto

lemma weighted_bounds:
  assumes "0 \<le> x" and "x \<le> 100" and "0 \<le> w" and "number_times 100 w = c"
  shows "0 \<le> number_times x w \<and> number_times x w \<le> c"
proof -
  have "number_times x w \<le> number_times 100 w"
    using assms(1,3,2) by (rule number_times_mono)
  then show ?thesis
    using assms by (simp add: number_times_nonneg)
qed

lemma riskScore_bounds:
  assumes "0 \<le> totalLoss xs"
  shows "0 \<le> riskScore now xs \<and> riskScore now xs \<le> 100"
proof -
  define a where "a = number_times (exploitFrequencyScore now xs) (binary64 0.4)"
  define b where "b = number_times (totalLossScore xs) (binary64 0.3)"
  define c where "c = number_times (recencyScore now xs) (binary64 0.3)"
  have a: "0 \<le> a \<and> a \<le> 40"
    unfolding a_def using exploitFrequencyScore_bounds[of now xs]
    by (intro weighted_bounds weights_nonneg full_weights) simp_all
  have b: "0 \<le> b \<and> b \<le> 30"
    unfolding b_def using totalLossScore_bounds[OF assms]
    by (intro weighted_bounds weights_nonneg full_weights) simp_all
  have c: "0 \<le> c \<and> c \<le> 30"
    unfolding c_def using recencyScore_bounds[of now xs]
    by (intro weighted_bounds weights_nonneg full_weights) simp_all
  have "number_plus a b \<le> number_plus 40 30"
    using a b by (intro number_plus_mono) simp_all
  then have ab: "0 \<le> number_plus a b \<and> number_plus a b \<le> 70"
    using a b by (simp add: number_plus_nonneg full_weights)
  have "number_plus (number_plus a b) c \<le> number_plus 70 30"
    using ab c by (intro number_plus_mono) simp_all
  then have "0 \<le> number_plus (number_plus a b) c \<and> number_plus (number_plus a b) c \<le> 100"
    using ab c by (simp add: number_plus_nonneg full_weights)
  then show ?thesis
    unfolding riskScore_def a_def b_def c_def .
qed

lemma round_bounds: "(0::rat) \<le> x \<Longrightarrow> x \<le> 100 \<Longrightarrow> 0 \<le> round x \<and> round x \<le> 100"
  unfolding round_def by (simp add: le_floor_iff floor_le_iff)

lemma lossOrZero_case: "lossOrZero e = (case loss_usd e of None \<Rightarrow> 0 | Some v \<Rightarrow> v)"
  by (simp add: lossOrZero_def split: option.splits)

text \<open>
  The exploit-frequency score is exact: for every number of recent records the rounded
  quotient by 10 times 100 is ten times the number, up to the cap of 100.
\<close>

lemma frequency_small:
  "n < 10 \<Longrightarrow> number_times (number_div (of_nat n) 10) 100 = of_nat n * 10"
proof -
  assume "n < 10"
  then have "n \<in> {0, 1, 2, 3, 4, 5, 6, 7, 8, 9}" by auto
  then show ?thesis
    by (elim insertE emptyE) (simp_all add: number_eval)
qed

lemma frequency_exact:
  "min (number_times (number_div (of_nat n) 10) 100) 100 = min ((of_nat n / 10) * 100) (100::rat)"
proof (cases "n < 10")
  case True
  then show ?thesis by (simp add: frequency_small)
next
  case False
  then have n: "(10::rat) \<le> of_nat n" by simp
  have "number_div 10 10 \<le> number_div (of_nat n) 10"
    using n by (intro number_div_mono) simp_all
  moreover have "number_div 10 10 = 1" by (simp add: number_eval)
  ultimately have "1 \<le> number_div (of_nat n) 10" by simp
  then have "number_times 1 100 \<le> number_times (number_div (of_nat n) 10) 100"
    by (intro number_times_mono) simp_all
  moreover have "number_times 1 100 = 100" by (simp add: number_eval)
  ultimately have "100 \<le> number_times (number_div (of_nat n) 10) 100" by simp
  then show ?thesis using n by (simp add: min_def)
qed

subsection \<open>Rounding points\<close>

lemma example_1450000:
  "exploitFrequencyScore ex_now [ex_exploit high 1450000 (ex_now - 10 * day)] = 10"
  "totalLoss [ex_exploit high 1450000 (ex_now - 10 * day)] = 1450000"
  "totalLossScore [ex_exploit high 1450000 (ex_now - 10 * day)]
     = 8162774324609023 / 562949953421312"
  "recencyScore ex_now [ex_exploit high 1450000 (ex_now - 10 * day)] = 50"
  "riskScore ex_now [ex_exploit high 1450000 (ex_now - 10 * day)]
     = 3286220353096909 / 140737488355328"
proof -
  let ?xs = "[ex_exploit high 1450000 (ex_now - 10 * day)]"
  show e: "exploitFrequencyScore ex_now ?xs = 10"
    by (simp add: exploitFrequencyScore_def recentExploits_def thirtyDaysAgo_def ex_exploit_def
        ex_now_def day_def)
      (simp add: number_eval)
  show l: "totalLoss ?xs = 1450000"
    by (simp add: totalLoss_def lossOrZero_def ex_exploit_def) (simp add: number_eval)
  show t: "totalLossScore ?xs = 8162774324609023 / 562949953421312"
    unfolding totalLossScore_def l by (simp add: number_eval)
  show r: "recencyScore ex_now ?xs = 50"
    by (simp add: recencyScore_def daysSinceLatest_def ex_exploit_def ex_now_def day_def)
  show "riskScore ex_now ?xs = 3286220353096909 / 140737488355328"
    unfolding riskScore_def e t r
    by (simp add: binary64_weight_04 binary64_weight_03) (simp add: number_eval)
qed

lemma example_half:
  "totalLoss [ex_exploit high (1 / 2) (ex_now - 40 * day)] = 1 / 2"
  by (simp add: totalLoss_def lossOrZero_def ex_exploit_def) (simp add: number_eval)

text \<open>
  Claim C3, as the claim states it, fails in two ways. \<^verbatim>\<open>Math.round\<close> is applied at a
  fifth place, the output field \<open>total_loss_usd\<close>: a single loss of one half, whose sum is
  one half, is returned as 1. And the component scores are computed in binary64, not over
  the reals: for a single loss of 1,450,000 the total-loss score is just below 14.5 and the
  returned factor is 14, where the rounding of \<open>min 100 (1450000 / 10000000 * 100)\<close> is 15.
\<close>

theorem C3_fifth_rounding_and_binary64:
  "totalLoss [ex_exploit high (1 / 2) (ex_now - 40 * day)] = 1 / 2
   \<and> total_loss_usd
        (calculateRiskScore ex_now [ex_exploit high (1 / 2) (ex_now - 40 * day)] ''p'') = 1
   \<and> total_loss (factors
        (calculateRiskScore ex_now [ex_exploit high 1450000 (ex_now - 10 * day)] ''p'')) = 14
   \<and> round (min 100 ((1450000 / 10000000) * 100) :: rat) = 15"
proof -
  have "total_loss_usd
        (calculateRiskScore ex_now [ex_exploit high (1 / 2) (ex_now - 40 * day)] ''p'') = 1"
    unfolding calculateRiskScore_def by (simp add: example_half round_def)
  moreover have "total_loss (factors
        (calculateRiskScore ex_now [ex_exploit high 1450000 (ex_now - 10 * day)] ''p'')) = 14"
    unfolding calculateRiskScore_def by (simp add: example_1450000 round_def floor_numeral_div)
  moreover have "round (min 100 ((1450000 / 10000000) * 100) :: rat) = 15"
    by (simp add: round_def floor_numeral_div)
  ultimately show ?thesis
    using example_half by blast
qed

text \<open>
  Claim C3, amended. For every sequence of exploit records whose losses are not negative,
  \<^verbatim>\<open>Math.round\<close> is applied at the three component scores, at the final score and at
  \<open>total_loss_usd\<close>. The component scores, the sum of the losses and the weighted sum are
  computed in binary64 with no \<^verbatim>\<open>Math.round\<close> inside: the exploit-frequency score is
  \<open>min 100 (|recent| / 10 * 100)\<close>, which binary64 computes exactly, the total-loss score
  is \<open>min 100 (\<Sum> loss_usd / 10,000,000 * 100)\<close> with the sum, the quotient and the product
  each rounded to binary64. The returned factors are the roundings of the three component
  scores; the returned score is the rounding of \<open>0.4 * exploit_frequency_score + 0.3 *
  total_loss_score + 0.3 * recency_score\<close>, computed in binary64 over the unrounded
  components, and it is an integer from 0 to 100; \<open>total_loss_usd\<close> is the rounding of the
  sum of the losses.
\<close>

theorem C3_rounding_in_binary64:
  assumes "\<forall>e\<in>set exploits. \<forall>v. loss_usd e = Some v \<longrightarrow> 0 \<le> v"
  shows "let r = calculateRiskScore now exploits p;
             recent = filter (\<lambda>e. case timestamp e of None \<Rightarrow> False
                                 | Some t \<Rightarrow> now - 30 * 24 * 60 * 60 * 1000 < t) exploits;
             exploit_frequency_score =
               min (number_times (number_div (of_nat (length recent)) 10) 100) 100;
             loss_sum =
               foldl (\<lambda>sum e. number_plus sum (case loss_usd e of None \<Rightarrow> 0 | Some v \<Rightarrow> v))
                 0 exploits;
             total_loss_score = min (number_times (number_div loss_sum 10000000) 100) 100;
             recency_score =
               (case exploits of
                  [] \<Rightarrow> 0
                | e # es \<Rightarrow>
                    (case timestamp e of
                       None \<Rightarrow> 0
                     | Some t \<Rightarrow>
                         let days = (of_int (now - t) :: rat) / (24 * 60 * 60 * 1000)
                         in if days < 7 then 100 else if days < 30 then 50 else 0))
         in exploit_frequency_score = min ((of_nat (length recent) / 10) * 100) 100
          \<and> exploit_frequency (factors r) = round exploit_frequency_score
          \<and> total_loss (factors r) = round total_loss_score
          \<and> recency (factors r) = round recency_score
          \<and> score r =
              round (number_plus
                (number_plus (number_times (binary64 0.4) exploit_frequency_score)
                   (number_times (binary64 0.3) total_loss_score))
                (number_times (binary64 0.3) recency_score))
          \<and> 0 \<le> score r \<and> score r \<le> 100
          \<and> total_loss_usd r = round loss_sum"
proof -
  define recent where "recent = filter (\<lambda>e. case timestamp e of None \<Rightarrow> False
      | Some t \<Rightarrow> now - 30 * 24 * 60 * 60 * 1000 < t) exploits"
  define efs where "efs = min (number_times (number_div (of_nat (length recent)) 10) 100) 100"
  define loss_sum where "loss_sum =
      foldl (\<lambda>sum e. number_plus sum (case loss_usd e of None \<Rightarrow> 0 | Some v \<Rightarrow> v)) 0 exploits"
  define tls where "tls = min (number_times (number_div loss_sum 10000000) 100) 100"
  define rs where "rs =
      (case exploits of
         [] \<Rightarrow> 0
       | e # es \<Rightarrow>
           (case timestamp e of
              None \<Rightarrow> 0
            | Some t \<Rightarrow>
                let days = (of_int (now - t) :: rat) / (24 * 60 * 60 * 1000)
                in if days < 7 then (100::rat) else if days < 30 then 50 else 0))"
  define r where "r = calculateRiskScore now exploits p"
  have c: "recencyScore now exploits = rs"
    unfolding rs_def by (rule recencyScore_first_record)
  have rec: "recentExploits now exploits = recent"
    unfolding recentExploits_def thirtyDaysAgo_def recent_def ..
  have e: "exploitFrequencyScore now exploits = efs"
    unfolding exploitFrequencyScore_def rec efs_def ..
  have l: "totalLoss exploits = loss_sum"
    unfolding totalLoss_def loss_sum_def by (simp only: lossOrZero_case)
  have t: "totalLossScore exploits = tls"
    unfolding totalLossScore_def l tls_def ..
  have s: "riskScore now exploits =
      number_plus
        (number_plus (number_times (binary64 0.4) efs) (number_times (binary64 0.3) tls))
        (number_times (binary64 0.3) rs)"
    unfolding riskScore_def e t c
    by (simp only: number_times_commute[of efs] number_times_commute[of tls]
        number_times_commute[of rs])
  have b: "0 \<le> round (riskScore now exploits) \<and> round (riskScore now exploits) \<le> 100"
    using riskScore_bounds[OF totalLoss_nonneg[OF assms], of now] round_bounds by blast
  have fields:
    "exploit_frequency (factors r) = round (exploitFrequencyScore now exploits)"
    "total_loss (factors r) = round (totalLossScore exploits)"
    "recency (factors r) = round (recencyScore now exploits)"
    "score r = round (riskScore now exploits)"
    "total_loss_usd r = round (totalLoss exploits)"
    unfolding r_def by (simp_all add: calculateRiskScore_def)
  have "efs = min ((of_nat (length recent) / 10) * 100) 100"
    unfolding efs_def by (rule frequency_exact)
  moreover note fields(1)[unfolded e] fields(2)[unfolded t] fields(3)[unfolded c]
    fields(4)[unfolded s]
    b[folded fields(4)] fields(5)[unfolded l]
  ultimately show ?thesis
    unfolding Let_def r_def[symmetric] recent_def[symmetric] efs_def[symmetric]
      loss_sum_def[symmetric] tls_def[symmetric] rs_def[unfolded Let_def, symmetric]
    by blast
qed

theorem C3_rounding_in_binary64_witness:
  "loss_usd (ex_exploit high 1450000 (ex_now - 10 * day)) = Some 1450000
   \<and> factors (calculateRiskScore ex_now [ex_exploit high 1450000 (ex_now - 10 * day)] ''p'')
       = \<lparr> exploit_frequency = 10, total_loss = 14, recency = 50,
           severity_distribution = [high \<mapsto> 1] \<rparr>
   \<and> score (calculateRiskScore ex_now [ex_exploit high 1450000 (ex_now - 10 * day)] ''p'') = 23
   \<and> total_loss_usd
        (calculateRiskScore ex_now [ex_exploit high 1450000 (ex_now - 10 * day)] ''p'')
       = 1450000"
proof -
  have h: "\<forall>e\<in>set [ex_exploit high 1450000 (ex_now - 10 * day)].
             \<forall>v. loss_usd e = Some v \<longrightarrow> 0 \<le> v"
    by (simp add: ex_exploit_def)
  have sd: "severityDist [ex_exploit high 1450000 (ex_now - 10 * day)] = [high \<mapsto> 1]"
    by (simp add: severityDist_def ex_exploit_def)
  have l: "loss_usd (ex_exploit high 1450000 (ex_now - 10 * day)) = Some 1450000"
    by (simp add: ex_exploit_def)
  have v: "round (8162774324609023 / 562949953421312 :: rat) = 14"
    "round (3286220353096909 / 140737488355328 :: rat) = 23"
    by (simp_all add: round_def floor_numeral_div)
  show ?thesis
    using C3_rounding_in_binary64[OF h, of ex_now "''p''"] l
    unfolding calculateRiskScore_def
    by (simp add: example_1450000 sd v)
qed

subsection \<open>The example of the specification\<close>

text \<open>
  Claim C4. For the single record of severity critical with a loss of 5,000,000 and a
  timestamp 3 days before now, whatever its other fields, the protocol and the clock:
  the exploit-frequency factor is 10, the total-loss factor is 50, the recency factor is
  100, the score is \<open>round (0.4 * 10 + 0.3 * 50 + 0.3 * 100) = 49\<close> and the level is MEDIUM.
\<close>

theorem C4_single_record_example:
  "let r = calculateRiskScore now
             [\<lparr> ExploitData.protocol = p, chain = c, severity = critical,
                loss_usd = Some 5000000, timestamp = Some (now - 3 * 24 * 60 * 60 * 1000),
                description = d, attack_vector = a \<rparr>] q
   in exploit_frequency (factors r) = 10 \<and> total_loss (factors r) = 50
      \<and> recency (factors r) = 100
      \<and> score r = round (0.4 * 10 + 0.3 * 50 + 0.3 * 100 :: rat) \<and> score r = 49
      \<and> risk_level r = MEDIUM"
proof -
  let ?xs = "[\<lparr> ExploitData.protocol = p, chain = c, severity = critical,
                loss_usd = Some 5000000, timestamp = Some (now - 3 * 24 * 60 * 60 * 1000),
                description = d, attack_vector = a \<rparr>]"
  have e: "exploitFrequencyScore now ?xs = 10"
    by (simp add: exploitFrequencyScore_def recentExploits_def thirtyDaysAgo_def)
      (simp add: number_eval)
  have t: "totalLossScore ?xs = 50"
    by (simp add: totalLossScore_def totalLoss_def lossOrZero_def) (simp add: number_eval)
  have r: "recencyScore now ?xs = 100"
    by (simp add: recencyScore_def daysSinceLatest_def)
  have s: "riskScore now ?xs = 49"
    unfolding riskScore_def e t r
    by (simp add: binary64_weight_04 binary64_weight_03) (simp add: number_eval)
  show ?thesis
    unfolding Let_def calculateRiskScore_def e t r s
    by (simp add: riskLevel_def)
qed

subsection \<open>The severity distribution\<close>

lemma severityDist_foldl:
  "foldl (\<lambda>acc e. acc(ExploitData.severity e \<mapsto>
                (case acc (ExploitData.severity e) of None \<Rightarrow> 0 | Some n \<Rightarrow> n) + 1)) m xs s
   = (let c = length (filter (\<lambda>e. ExploitData.severity e = s) xs) in
      case m s of None \<Rightarrow> (if c = 0 then None else Some c) | Some n \<Rightarrow> Some (n + c))"
  by (induction xs arbitrary: m) (auto simp: Let_def split: option.splits)

lemma severityDist_count:
  "severityDist xs s =
     (if s \<in> ExploitData.severity ` set xs
      then Some (length (filter (\<lambda>e. ExploitData.severity e = s) xs)) else None)"
  using severityDist_foldl[of Map.empty xs s] unfolding severityDist_def
  by (auto simp: Let_def filter_empty_conv)

lemma dom_severityDist: "dom (severityDist xs) = ExploitData.severity ` set xs"
  by (auto simp: severityDist_count dom_def split: if_splits)

lemma severityDist_positive: "severityDist xs s = Some n \<Longrightarrow> 0 < n"
  by (auto simp: severityDist_count filter_empty_conv split: if_splits)

lemma sum_severity_counts:
  "finite A \<Longrightarrow> ExploitData.severity ` set xs \<subseteq> A \<Longrightarrow>
   (\<Sum>s\<in>A. length (filter (\<lambda>e. ExploitData.severity e = s) xs)) = length xs"
proof (induction xs)
  case Nil
  then show ?case by simp
next
  case (Cons e xs)
  have "(\<Sum>s\<in>A. length (filter (\<lambda>e. ExploitData.severity e = s) (e # xs)))
      = (\<Sum>s\<in>A. length (filter (\<lambda>e. ExploitData.severity e = s) xs)
                + (if ExploitData.severity e = s then 1 else 0))"
    by (intro sum.cong) auto
  also have "\<dots> = length xs + 1"
    using Cons by (simp add: sum.distrib)
  finally show ?case by simp
qed

text \<open>
  Claim C10. For every sequence of exploit records, the keys of the returned
  \<open>severity_distribution\<close> are exactly the severities that occur in a record; each key
  holds the number of records of that severity, which is never zero; and the counts over
  all keys add up to the number of records.
\<close>

theorem C10_severity_distribution:
  "dom (severity_distribution (factors (calculateRiskScore now exploits p)))
     = ExploitData.severity ` set exploits
   \<and> severity_distribution (factors (calculateRiskScore now exploits p)) s
     = (if s \<in> ExploitData.severity ` set exploits
        then Some (length (filter (\<lambda>e. ExploitData.severity e = s) exploits)) else None)
   \<and> severity_distribution (factors (calculateRiskScore now exploits p)) s \<noteq> Some 0
   \<and> (\<Sum>k\<in>dom (severity_distribution (factors (calculateRiskScore now exploits p))).
         the (severity_distribution (factors (calculateRiskScore now exploits p)) k))
     = length exploits"
proof -
  have sd: "severity_distribution (factors (calculateRiskScore now exploits p))
      = severityDist exploits"
    by (simp add: calculateRiskScore_def)
  have "(\<Sum>k\<in>ExploitData.severity ` set exploits. the (severityDist exploits k))
      = (\<Sum>k\<in>ExploitData.severity ` set exploits.
           length (filter (\<lambda>e. ExploitData.severity e = k) exploits))"
    by (intro sum.cong) (auto simp: severityDist_count)
  also have "\<dots> = length exploits"
    by (rule sum_severity_counts) auto
  finally show ?thesis
    unfolding sd dom_severityDist using severityDist_positive[of exploits s 0]
    by (auto simp: severityDist_count)
qed

section \<open>Fetching exploits\<close>

text \<open>
  Claim C6. For every protocol and chain filter and every data service,
  \<^verbatim>\<open>fetchKamiyoExploits\<close> returns a sequence and does not raise: when the data service
  throws it returns the empty sequence, and otherwise it returns what the data service
  returned (which is the empty sequence when every source of the data service failed).
\<close>

theorem C6_fetch_never_raises:
  "(\<exists>exploits. fetchKamiyoExploits ds p c = Inr exploits)
   \<and> (\<forall>err. ds p c = Inl err \<longrightarrow> fetchKamiyoExploits ds p c = Inr [])
   \<and> (\<forall>exploits. ds p c = Inr exploits \<longrightarrow> fetchKamiyoExploits ds p c = Inr exploits)"
  by (auto simp: fetchKamiyoExploits_def split: sum.splits)

theorem C6_fetch_never_raises_witness:
  "fetchKamiyoExploits (\<lambda>p c. Inl (Error ''timeout'')) (Some ''uniswap'') None = Inr []"
  using C6_fetch_never_raises[of "\<lambda>p c. Inl (Error ''timeout'')" "Some ''uniswap''" None]
  by simp

section \<open>Risk flags\<close>

subsection \<open>The returned mapping\<close>

lemma detectRisks_Nil: "detectRisks rd now [] = Map.empty"
  by (simp add: detectRisks_def)

lemma detectRisks_snoc:
  "detectRisks rd now (as @ [a]) =
     (if approvalRisks rd now a \<noteq> []
      then (detectRisks rd now as)(riskKey a \<mapsto> approvalRisks rd now a)
      else detectRisks rd now as)"
  by (simp add: detectRisks_def Let_def)

lemma detectRisks_None_iff:
  "detectRisks rd now as k = None
     \<longleftrightarrow> (\<forall>a\<in>set as. riskKey a = k \<longrightarrow> approvalRisks rd now a = [])"
  by (induction as rule: rev_induct) (auto simp: detectRisks_snoc detectRisks_Nil)

lemma detectRisks_not_empty_list: "detectRisks rd now as k \<noteq> Some []"
  by (induction as rule: rev_induct) (auto simp: detectRisks_snoc detectRisks_Nil)

lemma detectRisks_last:
  assumes "\<forall>b\<in>set post. riskKey b = riskKey a \<longrightarrow> approvalRisks rd now b = []"
    and "approvalRisks rd now a \<noteq> []"
  shows "detectRisks rd now (pre @ a # post) (riskKey a) = Some (approvalRisks rd now a)"
  using assms(1)
proof (induction post rule: rev_induct)
  case Nil
  show ?case
    using assms(2) detectRisks_snoc[of rd now pre a] by simp
next
  case (snoc b post)
  have "detectRisks rd now (pre @ a # post @ [b]) = detectRisks rd now ((pre @ a # post) @ [b])"
    by simp
  then show ?case
    using snoc by (auto simp: detectRisks_snoc simp del: append_assoc)
qed

lemma unlimited_in_risks:
  "is_unlimited a \<Longrightarrow>
   \<exists>f\<in>set (approvalRisks rd now a). type f = unlimited \<and> RiskFlag.severity f = high"
  by (simp add: approvalRisks_def)

lemma stale_in_risks:
  "getDaysSince now (last_updated a) = Some d \<Longrightarrow> d > 180 \<Longrightarrow>
   \<exists>f\<in>set (approvalRisks rd now a). type f = stale \<and> RiskFlag.severity f = medium"
  by (simp add: approvalRisks_def staleThresholdDays_def)

text \<open>
  Claim C7, as the claim states it, fails: two approvals of the same token to the same
  spender share a key, and the flags of the later one replace those of the earlier one.
  Here the first approval is unlimited and 200 days old, the second is 200 days old and
  not unlimited, and the key holds the stale flag alone.
\<close>

theorem C7_later_approval_replaces_flags:
  "is_unlimited ex_A \<and> getDaysSince ex_now (last_updated ex_A) = Some 200
   \<and> detectRisks ex_rd ex_now [ex_A, ex_B] (riskKey ex_A)
       = Some [\<lparr> type = stale, severity = medium,
                  description = ''Approval is 200 days old. Consider revoking unused approvals.'' \<rparr>]"
  by (simp add: ex_A_def ex_B_def ex_rd_def ex_now_def day_def detectRisks_def approvalRisks_def
      getDaysSince_def staleThresholdDays_def checkProtocolExploitHistory_def protocolMap_0xS
      riskKey_def RiskDetector_new_def showInt_200 Let_def)

text \<open>
  Claim C7, amended. For every approval of the input that is unlimited and was last
  updated more than 180 days ago, and after which no approval with the same key
  \<open>token_address-spender_address\<close> triggers a rule, the returned mapping holds under that
  key a list with an unlimited flag of severity high and a stale flag of severity medium.
  A key is absent from the returned mapping exactly when every approval with that key
  triggers no rule, and no key is mapped to the empty list.
\<close>

theorem C7_unlimited_and_stale_flags:
  "(is_unlimited a \<and> getDaysSince now (last_updated a) = Some d \<and> d > 180
      \<and> (\<forall>b\<in>set post. riskKey b = riskKey a \<longrightarrow> approvalRisks rd now b = [])
    \<longrightarrow> (\<exists>fs. detectRisks rd now (pre @ a # post) (riskKey a) = Some fs
          \<and> (\<exists>f\<in>set fs. type f = unlimited \<and> RiskFlag.severity f = high)
          \<and> (\<exists>f\<in>set fs. type f = stale \<and> RiskFlag.severity f = medium)))
   \<and> (detectRisks rd now approvals k = None
        \<longleftrightarrow> (\<forall>b\<in>set approvals. riskKey b = k \<longrightarrow> approvalRisks rd now b = []))
   \<and> detectRisks rd now approvals k \<noteq> Some []"
proof (intro conjI impI)
  assume h: "is_unlimited a \<and> getDaysSince now (last_updated a) = Some d \<and> d > 180
      \<and> (\<forall>b\<in>set post. riskKey b = riskKey a \<longrightarrow> approvalRisks rd now b = [])"
  from h have u: "\<exists>f\<in>set (approvalRisks rd now a). type f = unlimited \<and> RiskFlag.severity f = high"
    by (simp add: unlimited_in_risks)
  from h have s: "\<exists>f\<in>set (approvalRisks rd now a). type f = stale \<and> RiskFlag.severity f = medium"
    using stale_in_risks by blast
  from u have ne: "approvalRisks rd now a \<noteq> []"
    by auto
  from h have "detectRisks rd now (pre @ a # post) (riskKey a) = Some (approvalRisks rd now a)"
    using detectRisks_last[OF _ ne] by blast
  with u s show "\<exists>fs. detectRisks rd now (pre @ a # post) (riskKey a) = Some fs
          \<and> (\<exists>f\<in>set fs. type f = unlimited \<and> RiskFlag.severity f = high)
          \<and> (\<exists>f\<in>set fs. type f = stale \<and> RiskFlag.severity f = medium)"
    by simp
next
  show "detectRisks rd now approvals k = None
        \<longleftrightarrow> (\<forall>b\<in>set approvals. riskKey b = k \<longrightarrow> approvalRisks rd now b = [])"
    by (rule detectRisks_None_iff)
next
  show "detectRisks rd now approvals k \<noteq> Some []"
    by (rule detectRisks_not_empty_list)
qed

theorem C7_unlimited_and_stale_flags_witness:
  "is_unlimited ex_A \<and> getDaysSince ex_now (last_updated ex_A) = Some 200 \<and> (200::rat) > 180
   \<and> (\<exists>fs. detectRisks ex_rd ex_now [ex_B, ex_A] (riskKey ex_A) = Some fs
          \<and> (\<exists>f\<in>set fs. type f = unlimited \<and> RiskFlag.severity f = high)
          \<and> (\<exists>f\<in>set fs. type f = stale \<and> RiskFlag.severity f = medium))"
proof -
  have a: "is_unlimited ex_A"
    by (simp add: ex_A_def)
  have b: "getDaysSince ex_now (last_updated ex_A) = Some 200"
    by (simp add: ex_A_def ex_now_def day_def getDaysSince_def)
  show ?thesis
    using a b C7_unlimited_and_stale_flags[of ex_A ex_now 200 "[]" ex_rd "[ex_B]" "[]" "''x''"]
    by simp
qed

subsection \<open>The exploited-protocol rule\<close>

lemma check_flag_type:
  "checkProtocolExploitHistory rd now s = Some f \<Longrightarrow> type f = exploited_protocol"
  unfolding checkProtocolExploitHistory_def Let_def
  by (simp split: option.splits sum.splits if_splits) auto

lemma check_flag_severity:
  assumes "protocolMap s = Some p" and "dataService rd (Some p) None = Inr exploits"
    and "exploits \<noteq> []"
  shows "\<exists>f. checkProtocolExploitHistory rd now s = Some f \<and> type f = exploited_protocol
     \<and> RiskFlag.severity f =
         (if \<exists>e\<in>set exploits. (\<exists>t. timestamp e = Some t \<and> t > now - 90 * 24 * 60 * 60 * 1000)
               \<and> (ExploitData.severity e = critical \<or> ExploitData.severity e = high) then critical
          else if \<exists>e\<in>set exploits. \<exists>t. timestamp e = Some t \<and> t > now - 90 * 24 * 60 * 60 * 1000
          then high
          else medium)"
  using assms
  by (auto simp: checkProtocolExploitHistory_def Let_def filter_empty_conv split: option.splits)

lemma filter_exploited:
  "filter (\<lambda>f. type f = exploited_protocol) (approvalRisks rd now a)
     = (case checkProtocolExploitHistory rd now (spender_address a) of
          None \<Rightarrow> []
        | Some f \<Rightarrow> if type f = exploited_protocol then [f] else [])"
  by (simp add: approvalRisks_def split: option.splits)

text \<open>
  Claim C8. For every approval whose spender address the router table maps to a protocol
  for which the data service returns a non-empty history, the flags \<^verbatim>\<open>detectRisks\<close> builds
  for the approval hold exactly one flag of type \<open>exploited_protocol\<close>. Its severity is
  critical if some exploit of the last 90 days has severity critical or high, high if
  there are exploits of the last 90 days and none of them has severity critical or high,
  and medium if no exploit is of the last 90 days. These flags are what the returned
  mapping holds under the approval's key, unless a later approval with the same key
  triggers a rule.
\<close>

theorem C8_exploited_protocol_severity:
  assumes "protocolMap (spender_address a) = Some p"
    and "dataService rd (Some p) None = Inr exploits"
    and "exploits \<noteq> []"
  shows "\<exists>f. filter (\<lambda>f. type f = exploited_protocol) (approvalRisks rd now a) = [f]
     \<and> RiskFlag.severity f =
         (if \<exists>e\<in>set exploits. (\<exists>t. timestamp e = Some t \<and> t > now - 90 * 24 * 60 * 60 * 1000)
               \<and> (ExploitData.severity e = critical \<or> ExploitData.severity e = high) then critical
          else if \<exists>e\<in>set exploits. \<exists>t. timestamp e = Some t \<and> t > now - 90 * 24 * 60 * 60 * 1000
          then high
          else medium)
     \<and> ((\<forall>b\<in>set post. riskKey b = riskKey a \<longrightarrow> approvalRisks rd now b = [])
          \<longrightarrow> (\<exists>fs. detectRisks rd now (pre @ a # post) (riskKey a) = Some fs
                \<and> filter (\<lambda>f. type f = exploited_protocol) fs = [f]))"
proof -
  from check_flag_severity[OF assms, of now] obtain f where
    f: "checkProtocolExploitHistory rd now (spender_address a) = Some f"
       "type f = exploited_protocol"
       "RiskFlag.severity f =
         (if \<exists>e\<in>set exploits. (\<exists>t. timestamp e = Some t \<and> t > now - 90 * 24 * 60 * 60 * 1000)
               \<and> (ExploitData.severity e = critical \<or> ExploitData.severity e = high) then critical
          else if \<exists>e\<in>set exploits. \<exists>t. timestamp e = Some t \<and> t > now - 90 * 24 * 60 * 60 * 1000
          then high
          else medium)"
    by blast
  have one: "filter (\<lambda>f. type f = exploited_protocol) (approvalRisks rd now a) = [f]"
    using f(1,2) by (simp add: filter_exploited)
  then have ne: "approvalRisks rd now a \<noteq> []"
    by auto
  have "(\<forall>b\<in>set post. riskKey b = riskKey a \<longrightarrow> approvalRisks rd now b = [])
          \<longrightarrow> (\<exists>fs. detectRisks rd now (pre @ a # post) (riskKey a) = Some fs
                \<and> filter (\<lambda>f. type f = exploited_protocol) fs = [f])"
    using detectRisks_last[OF _ ne, of post pre] one by simp
  with one f(3) show ?thesis
    by blast
qed

theorem C8_exploited_protocol_severity_witness:
  "protocolMap (spender_address ex_C) = Some ''uniswap-v2''
   \<and> dataService ex_rd2 (Some ''uniswap-v2'') None
       = Inr [ex_exploit critical 1000 (ex_now - 10 * day)]
   \<and> (\<exists>f. filter (\<lambda>f. type f = exploited_protocol) (approvalRisks ex_rd2 ex_now ex_C) = [f]
        \<and> RiskFlag.severity f = critical
        \<and> (\<exists>fs. detectRisks ex_rd2 ex_now [ex_A, ex_C] (riskKey ex_C) = Some fs
              \<and> filter (\<lambda>f. type f = exploited_protocol) fs = [f]))"
proof -
  have p: "protocolMap (spender_address ex_C) = Some ''uniswap-v2''"
    by (simp add: ex_C_def protocolMap_def)
  have d: "dataService ex_rd2 (Some ''uniswap-v2'') None
      = Inr [ex_exploit critical 1000 (ex_now - 10 * day)]"
    by (simp add: ex_rd2_def RiskDetector_new_def)
  have n: "[ex_exploit critical 1000 (ex_now - 10 * day)] \<noteq> []"
    by simp
  have c: "\<exists>e\<in>set [ex_exploit critical 1000 (ex_now - 10 * day)].
             (\<exists>t. timestamp e = Some t \<and> t > ex_now - 90 * 24 * 60 * 60 * 1000)
             \<and> (ExploitData.severity e = critical \<or> ExploitData.severity e = high)"
    by (simp add: ex_exploit_def day_def)
  show ?thesis
    using p d C8_exploited_protocol_severity[OF p d n, of ex_now "[]" "[ex_A]"] c
    by simp
qed

subsection \<open>Letter case of the spender address\<close>

lemma dom_protocolMap:
  "dom protocolMap =
     {''0x7a250d5630B4cF539739dF2C5dAcb4c659F2488D'',
      ''0xE592427A0AEce92De3Edee1F18E0157C05861564'',
      ''0x68b3465833fb72A70ecDF485E0e4C7bD8665Fc45'',
      ''0xd9e1cE17f2641f24aE83637ab66a2cca9C378B9F'',
      ''0x1111111254fb6c44bAC0beD2854e76F90643097d'',
      ''0xDef1C0ded9bec7F1a1670819833240f027b25EfF''}"
  unfolding protocolMap_def dom_map_of_conv_image_fst by simp

lemma toLowerCase_keys:
  "toLowerCase ''0x7a250d5630B4cF539739dF2C5dAcb4c659F2488D''
     = ''0x7a250d5630b4cf539739df2c5dacb4c659f2488d''"
  "toLowerCase ''0xE592427A0AEce92De3Edee1F18E0157C05861564''
     = ''0xe592427a0aece92de3edee1f18e0157c05861564''"
  "toLowerCase ''0x68b3465833fb72A70ecDF485E0e4C7bD8665Fc45''
     = ''0x68b3465833fb72a70ecdf485e0e4c7bd8665fc45''"
  "toLowerCase ''0xd9e1cE17f2641f24aE83637ab66a2cca9C378B9F''
     = ''0xd9e1ce17f2641f24ae83637ab66a2cca9c378b9f''"
  "toLowerCase ''0x1111111254fb6c44bAC0beD2854e76F90643097d''
     = ''0x1111111254fb6c44bac0bed2854e76f90643097d''"
  "toLowerCase ''0xDef1C0ded9bec7F1a1670819833240f027b25EfF''
     = ''0xdef1c0ded9bec7f1a1670819833240f027b25eff''"
  by code_simp+

lemma toLowerCase_inj_on_keys:
  assumes "k \<in> dom protocolMap" and "k' \<in> dom protocolMap"
    and "toLowerCase k = toLowerCase k'"
  shows "k = k'"
  using assms unfolding dom_protocolMap
  by (elim insertE emptyE; simp add: toLowerCase_keys)

lemma suspicious_flag_iff:
  "(\<exists>f\<in>set (approvalRisks rd now a). type f = suspicious_spender)
     \<longleftrightarrow> toLowerCase (spender_address a) \<in> knownScamAddresses rd"
proof (cases "checkProtocolExploitHistory rd now (spender_address a)")
  case None
  then show ?thesis
    by (auto simp: approvalRisks_def split: option.splits if_splits)
next
  case (Some f)
  then have "type f = exploited_protocol"
    by (rule check_flag_type)
  with Some show ?thesis
    by (auto simp: approvalRisks_def split: option.splits if_splits)
qed

text \<open>
  Claim C9. The router table is looked up with the spender address as it is written. For
  every spender address that differs from a key of the table in letter case only, the
  lookup resolves no protocol, \<^verbatim>\<open>checkProtocolExploitHistory\<close> returns \<^verbatim>\<open>null\<close> and the
  approval gets no \<open>exploited_protocol\<close> flag. The deny-list check differs: an approval
  gets the \<open>suspicious_spender\<close> flag exactly when the lower-case form of its spender
  address is in the deny-list, so that the same address is flagged once the key has been
  added to the deny-list.
\<close>

theorem C9_router_lookup_case_sensitive:
  assumes "k \<in> dom protocolMap" and "toLowerCase s = toLowerCase k" and "s \<noteq> k"
  shows "protocolMap s = None
     \<and> checkProtocolExploitHistory rd now s = None
     \<and> (spender_address a = s \<longrightarrow>
          filter (\<lambda>f. type f = exploited_protocol) (approvalRisks rd now a) = [])
     \<and> ((\<exists>f\<in>set (approvalRisks rd now a). type f = suspicious_spender)
          \<longleftrightarrow> toLowerCase (spender_address a) \<in> knownScamAddresses rd)
     \<and> (spender_address a = s \<longrightarrow>
          (\<exists>f\<in>set (approvalRisks (addScamAddress rd k) now a). type f = suspicious_spender))"
proof -
  have "s \<notin> dom protocolMap"
    using toLowerCase_inj_on_keys[OF _ assms(1) assms(2)] assms(3) by blast
  then have none: "protocolMap s = None"
    by blast
  then have chk: "checkProtocolExploitHistory rd now s = None"
    by (simp add: checkProtocolExploitHistory_def)
  have sus: "spender_address a = s \<longrightarrow>
          (\<exists>f\<in>set (approvalRisks (addScamAddress rd k) now a). type f = suspicious_spender)"
    unfolding suspicious_flag_iff using assms(2) by (simp add: addScamAddress_def)
  show ?thesis
    using none chk sus suspicious_flag_iff[of rd now a] by (simp add: filter_exploited)
qed

theorem C9_router_lookup_case_sensitive_witness:
  "protocolMap ''0x7a250d5630B4cF539739dF2C5dAcb4c659F2488D'' = Some ''uniswap-v2''
   \<and> toLowerCase ''0x7a250d5630b4cf539739df2c5dacb4c659f2488d''
       = toLowerCase ''0x7a250d5630B4cF539739dF2C5dAcb4c659F2488D''
   \<and> protocolMap ''0x7a250d5630b4cf539739df2c5dacb4c659f2488d'' = None
   \<and> checkProtocolExploitHistory ex_rd2 ex_now ''0x7a250d5630b4cf539739df2c5dacb4c659f2488d''
       = None
   \<and> filter (\<lambda>f. type f = exploited_protocol) (approvalRisks ex_rd2 ex_now ex_D) = []
   \<and> (\<exists>f\<in>set (approvalRisks
          (addScamAddress ex_rd2 ''0x7a250d5630B4cF539739dF2C5dAcb4c659F2488D'') ex_now ex_D).
        type f = suspicious_spender)"
proof -
  have k: "''0x7a250d5630B4cF539739dF2C5dAcb4c659F2488D'' \<in> dom protocolMap"
    by (simp add: dom_protocolMap)
  have p: "protocolMap ''0x7a250d5630B4cF539739dF2C5dAcb4c659F2488D'' = Some ''uniswap-v2''"
    by (simp add: protocolMap_def)
  have l: "toLowerCase ''0x7a250d5630b4cf539739df2c5dacb4c659f2488d''
       = toLowerCase ''0x7a250d5630B4cF539739dF2C5dAcb4c659F2488D''"
    by code_simp
  have n: "''0x7a250d5630b4cf539739df2c5dacb4c659f2488d''
       \<noteq> ''0x7a250d5630B4cF539739dF2C5dAcb4c659F2488D''"
    by simp
  have s: "spender_address ex_D = ''0x7a250d5630b4cf539739df2c5dacb4c659f2488d''"
    by (simp add: ex_D_def)
  show ?thesis
    using p l s C9_router_lookup_case_sensitive[OF k l n, of ex_rd2 ex_now ex_D] by simp
qed

section \<open>The price in the discovery document\<close>

subsection \<open>The price constants\<close>

lemma binary64_price: "binary64 (1 / 1000) = 1152921504606847 / 1152921504606846976"
  by (simp add: binary64_eval)

lemma binary64_lamports: "binary64 1000000000 = 1000000000"
  by (simp add: binary64_eval)

lemma price_times_lamports: "number_times PRICE_PER_REQUEST_SOL LAMPORTS_PER_SOL = 1000000"
  by (simp add: number_times_def PRICE_PER_REQUEST_SOL_def LAMPORTS_PER_SOL_def binary64_price
      binary64_lamports binary64_eval)

lemma lamports_string:
  "NumberToString render (number_times PRICE_PER_REQUEST_SOL LAMPORTS_PER_SOL) = ''1000000''"
  by (simp add: price_times_lamports NumberToString_def showInt_1000000)

lemma price_inexact: "PRICE_PER_REQUEST_SOL \<noteq> 1 / 1000"
  by (simp add: PRICE_PER_REQUEST_SOL_def binary64_price)

text \<open>
  Claim C5. For every request, payment wallet and rendering of non-integers, the handler
  of \<^verbatim>\<open>/.well-known/x402\<close> answers with status 402 and three resource descriptors, and
  \<open>maxAmountRequired\<close> is the string \<open>1000000\<close> in each of them. The Number value of the
  literal \<^verbatim>\<open>0.001\<close> is not the rational 1/1000, and its binary64 product with
  \<^verbatim>\<open>1_000_000_000\<close> is the integer 1000000 all the same.
\<close>

theorem C5_max_amount_required:
  "map maxAmountRequired (accepts (body (wellKnownX402 render wallet req)))
     = [''1000000'', ''1000000'', ''1000000'']
   \<and> status (wellKnownX402 render wallet req) = 402
   \<and> number_times PRICE_PER_REQUEST_SOL LAMPORTS_PER_SOL = 1000000
   \<and> PRICE_PER_REQUEST_SOL \<noteq> 1 / 1000"
proof -
  have "map maxAmountRequired (accepts (body (wellKnownX402 render wallet req)))
     = [''1000000'', ''1000000'', ''1000000'']"
    by (simp add: wellKnownX402_def lamports_string)
  moreover have "status (wellKnownX402 render wallet req) = 402"
    by (simp add: wellKnownX402_def)
  ultimately show ?thesis
    using price_times_lamports price_inexact by blast
qed

end
